theory Spec2Isabelle
  imports Complex_Main "HOL-Library.Word"
begin

unbundle bit_operations_syntax

section \<open>Telemetry decoding: drivers/pwm\_output\_dshot.c\<close>

type_synonym uint16_t = "16 word"
type_synonym uint32_t = "32 word"

text \<open>
  The protocol constants come from \<^verbatim>\<open>pwm_output.h\<close>, which is not among the sources.
  They are parameters of the model; the theorems say which properties of them they rely on.
\<close>

record telemetryConsts =
  DSHOT_TELEMETRY_INPUT_LEN :: nat
  PROSHOT_TELEMETRY_INPUT_LEN :: nat
  MOTOR_NIBBLE_LENGTH_PROSHOT :: nat
  PROSHOT_BASE_SYMBOL :: nat
  PROSHOT_BIT_WIDTH :: nat

text \<open>
  The tail shared by both decoders (lines 136-143 and 162-169): fold the bytes, then the
  nibbles, of the accumulated word with XOR; a nonzero low nibble is a checksum failure and
  gives the sentinel, otherwise the word is returned without its checksum nibble, converted
  to the 16-bit return type.
\<close>

definition xorFold :: "uint32_t \<Rightarrow> uint32_t" where
  "xorFold value =
     (let csum = value;
          csum = csum XOR drop_bit 8 csum;
          csum = csum XOR drop_bit 4 csum
      in csum)"

definition checksumFails :: "uint32_t \<Rightarrow> bool" where
  "checksumFails value = (xorFold value AND 0xf \<noteq> 0)"

definition checkedPayload :: "uint32_t \<Rightarrow> uint16_t" where
  "checkedPayload value = (if checksumFails value then 0xffff else ucast (drop_bit 4 value))"

text \<open>One iteration of the loop of \<^verbatim>\<open>decodeDshotPacket\<close> on the samples \<open>buffer[i]\<close>, \<open>buffer[i-1]\<close>.
  The difference of the two unsigned samples wraps and is read as a signed \<^verbatim>\<open>int\<close>.\<close>

definition dshotStep :: "uint32_t \<Rightarrow> uint32_t \<Rightarrow> uint32_t \<Rightarrow> uint32_t" where
  "dshotStep cur prev value =
     (let diff = sint (cur - prev);
          value = push_bit 1 value
      in if diff > 0 then (if diff \<ge> 11 then value OR 1 else value)
         else (if diff \<ge> - 9 then value OR 1 else value))"

text \<open>The loop \<^verbatim>\<open>for (i = 1; i < LEN; i += 2)\<close>. A read beyond the buffer is a fault: \<open>None\<close>.\<close>

function dshotLoop :: "nat \<Rightarrow> uint32_t list \<Rightarrow> nat \<Rightarrow> uint32_t \<Rightarrow> uint32_t option" where
  "dshotLoop n buffer i value =
     (if i < n then
        (if i < length buffer
         then dshotLoop n buffer (i + 2) (dshotStep (buffer ! i) (buffer ! (i - 1)) value)
         else None)
      else Some value)"
  by pat_completeness auto
termination
  by (relation "measure (\<lambda>(n, buffer, i, value). n - i)") auto

declare dshotLoop.simps [simp del]

definition dshotValue :: "telemetryConsts \<Rightarrow> uint32_t list \<Rightarrow> uint32_t option" where
  "dshotValue c buffer = dshotLoop (DSHOT_TELEMETRY_INPUT_LEN c) buffer 1 0"

definition decodeDshotPacket :: "telemetryConsts \<Rightarrow> uint32_t list \<Rightarrow> uint16_t option" where
  "decodeDshotPacket c buffer = map_option checkedPayload (dshotValue c buffer)"

text \<open>One iteration of the loop of \<^verbatim>\<open>decodeProshotPacket\<close>. The sum, the difference and the
  remainder are unsigned 32-bit operations (the \<^verbatim>\<open>int\<close> constants are converted); the result
  is read as a signed \<^verbatim>\<open>int\<close>. A remainder or a division by zero is a fault: \<open>None\<close>.\<close>

definition proshotStep :: "telemetryConsts \<Rightarrow> uint32_t \<Rightarrow> uint32_t \<Rightarrow> uint32_t \<Rightarrow> uint32_t option" where
  "proshotStep c cur prev value =
     (let proshotModulo = (word_of_nat (MOTOR_NIBBLE_LENGTH_PROSHOT c) :: uint32_t)
      in if proshotModulo = 0 then None
         else let diff = sint (((cur + proshotModulo - prev) mod proshotModulo)
                                 - word_of_nat (PROSHOT_BASE_SYMBOL c))
              in if diff < 0
                 then Some (push_bit 4 value OR word_of_int ((0::int) AND 0xf))
                 else if PROSHOT_BIT_WIDTH c = 0 then None
                 else let nibble = (diff + int (PROSHOT_BIT_WIDTH c) div 2) div int (PROSHOT_BIT_WIDTH c)
                      in Some (push_bit 4 value OR word_of_int (nibble AND 0xf)))"

function proshotLoop ::
  "telemetryConsts \<Rightarrow> nat \<Rightarrow> uint32_t list \<Rightarrow> nat \<Rightarrow> uint32_t \<Rightarrow> uint32_t option" where
  "proshotLoop c n buffer i value =
     (if i < n then
        (if i < length buffer
         then (case proshotStep c (buffer ! i) (buffer ! (i - 1)) value of
                 None \<Rightarrow> None
               | Some value' \<Rightarrow> proshotLoop c n buffer (i + 2) value')
         else None)
      else Some value)"
  by pat_completeness auto
termination
  by (relation "measure (\<lambda>(c, n, buffer, i, value). n - i)") auto

declare proshotLoop.simps [simp del]

definition proshotValue :: "telemetryConsts \<Rightarrow> uint32_t list \<Rightarrow> uint32_t option" where
  "proshotValue c buffer = proshotLoop c (PROSHOT_TELEMETRY_INPUT_LEN c) buffer 1 0"

definition decodeProshotPacket :: "telemetryConsts \<Rightarrow> uint32_t list \<Rightarrow> uint16_t option" where
  "decodeProshotPacket c buffer = map_option checkedPayload (proshotValue c buffer)"

text \<open>The values of the constants in the firmware's header, used for concrete runs.\<close>

definition betaflightConsts :: telemetryConsts where
  "betaflightConsts =
     \<lparr> DSHOT_TELEMETRY_INPUT_LEN = 32, PROSHOT_TELEMETRY_INPUT_LEN = 8,
       MOTOR_NIBBLE_LENGTH_PROSHOT = 96, PROSHOT_BASE_SYMBOL = 24, PROSHOT_BIT_WIDTH = 3 \<rparr>"


subsection \<open>Consuming the captured telemetry: \<^verbatim>\<open>pwmStartDshotMotorUpdate\<close>\<close>

text \<open>The fields of \<^verbatim>\<open>motorDmaOutput_t\<close> that the telemetry path reads or writes. The timer
  and DMA registers are hardware and are not part of the model.\<close>

record motorDmaOutput =
  hasTelemetry :: bool
  useProshot :: bool
  isInput :: bool
  dmaBuffer :: "uint32_t list"
  dshotTelemetryValue :: uint16_t

record dshotState =
  useDshotTelemetry :: bool
  dmaMotors :: "nat \<Rightarrow> motorDmaOutput"
  dshotInvalidPacketCount :: uint32_t
  inputBuffer :: "uint32_t list"

definition pwmDshotSetDirectionOutput :: "bool \<Rightarrow> motorDmaOutput \<Rightarrow> motorDmaOutput" where
  "pwmDshotSetDirectionOutput output m = m\<lparr>isInput := \<not> output\<rparr>"

text \<open>The decoder chosen for a motor (lines 264-266), and a capture that is ready and
  decodes to the sentinel.\<close>

definition decodeTelemetry :: "telemetryConsts \<Rightarrow> motorDmaOutput \<Rightarrow> uint16_t option" where
  "decodeTelemetry c m =
     (if useProshot m then decodeProshotPacket c (dmaBuffer m)
      else decodeDshotPacket c (dmaBuffer m))"

definition invalidCapture :: "telemetryConsts \<Rightarrow> motorDmaOutput \<Rightarrow> bool" where
  "invalidCapture c m \<longleftrightarrow> hasTelemetry m \<and> decodeTelemetry c m = Some 0xffff"

text \<open>The telemetry value of a motor after its iteration of the loop (lines 263-268): a ready
  capture that decodes to a value other than the sentinel replaces it.\<close>

definition telemetryAfter :: "telemetryConsts \<Rightarrow> motorDmaOutput \<Rightarrow> uint16_t" where
  "telemetryAfter c m =
     (if hasTelemetry m then
        (case decodeTelemetry c m of
           None \<Rightarrow> dshotTelemetryValue m
         | Some value \<Rightarrow> if value \<noteq> 0xffff then value else dshotTelemetryValue m)
      else dshotTelemetryValue m)"

text \<open>The body of the first loop of \<^verbatim>\<open>pwmStartDshotMotorUpdate\<close> for motor \<open>i\<close> (lines 263-282).\<close>

definition startMotorUpdate :: "telemetryConsts \<Rightarrow> nat \<Rightarrow> dshotState \<Rightarrow> dshotState option" where
  "startMotorUpdate c i s =
     (let m = dmaMotors s i
      in if hasTelemetry m then
           (case decodeTelemetry c m of
              None \<Rightarrow> None
            | Some value \<Rightarrow>
                let s1 = (if value \<noteq> 0xffff
                          then s\<lparr>dmaMotors := (dmaMotors s)(i := m\<lparr>dshotTelemetryValue := value\<rparr>)\<rparr>
                          else s\<lparr>dshotInvalidPacketCount := dshotInvalidPacketCount s + 1,
                                 inputBuffer := (if i = 0
                                                 then take (DSHOT_TELEMETRY_INPUT_LEN c) (dmaBuffer m)
                                                 else inputBuffer s)\<rparr>);
                    s2 = s1\<lparr>dmaMotors := (dmaMotors s1)(i := (dmaMotors s1 i)\<lparr>hasTelemetry := False\<rparr>)\<rparr>
                in Some (s2\<lparr>dmaMotors :=
                              (dmaMotors s2)(i := pwmDshotSetDirectionOutput True (dmaMotors s2 i))\<rparr>))
         else Some (s\<lparr>dmaMotors := (dmaMotors s)(i := pwmDshotSetDirectionOutput True m)\<rparr>))"

function startMotorLoop :: "telemetryConsts \<Rightarrow> nat \<Rightarrow> nat \<Rightarrow> dshotState \<Rightarrow> dshotState option" where
  "startMotorLoop c motorCount i s =
     (if i < motorCount then
        (case startMotorUpdate c i s of
           None \<Rightarrow> None
         | Some s' \<Rightarrow> startMotorLoop c motorCount (i + 1) s')
      else Some s)"
  by pat_completeness auto
termination
  by (relation "measure (\<lambda>(c, motorCount, i, s). motorCount - i)") auto

declare startMotorLoop.simps [simp del]

text \<open>The second loop only re-enables the timer channels and changes nothing of the model's state.\<close>

definition pwmStartDshotMotorUpdate :: "telemetryConsts \<Rightarrow> nat \<Rightarrow> dshotState \<Rightarrow> dshotState option" where
  "pwmStartDshotMotorUpdate c motorCount s =
     (if useDshotTelemetry s then startMotorLoop c motorCount 0 s else Some s)"

definition getDshotTelemetry :: "dshotState \<Rightarrow> nat \<Rightarrow> uint16_t" where
  "getDshotTelemetry s index = dshotTelemetryValue (dmaMotors s index)"

section \<open>The RPM notch filter banks: sensors/rpm\_filter.c\<close>

text \<open>
  Values of type \<^verbatim>\<open>float\<close> are modelled as real numbers: comparisons are exact, and the
  rounding of the arithmetic is not modelled.

  The filter library (\<^verbatim>\<open>common/filter.h\<close>) is not among the sources. Its operations are
  parameters of the model. A biquad cell has the five coefficients this file copies and the
  delay line the library keeps; \<^verbatim>\<open>biquadFilterInit\<close> sets a whole cell from its arguments.
\<close>

record biquadFilter =
  b0 :: real
  b1 :: real
  b2 :: real
  a1 :: real
  a2 :: real
  delayLine :: "real list"

record pt1Filter =
  pt1_state :: real
  pt1_k :: real

record filterLib =
  biquadFilterInit :: "real \<Rightarrow> real \<Rightarrow> real \<Rightarrow> biquadFilter"
  biquadFilterUpdate :: "biquadFilter \<Rightarrow> real \<Rightarrow> real \<Rightarrow> real \<Rightarrow> biquadFilter"
  biquadFilterApplyDF1 :: "biquadFilter \<Rightarrow> real \<Rightarrow> biquadFilter \<times> real"
  pt1FilterGain :: "real \<Rightarrow> real \<Rightarrow> real"
  pt1FilterInit :: "real \<Rightarrow> pt1Filter"
  pt1FilterApply :: "pt1Filter \<Rightarrow> real \<Rightarrow> pt1Filter \<times> real"

text \<open>What the file reads from its collaborators (mixer, motor configuration, gyro, PID
  configuration), and the number of axes of \<^verbatim>\<open>common/axis.h\<close>.\<close>

record rpmEnv =
  getMotorCount :: nat
  dev_useDshotTelemetry :: bool
  motorPoleCount :: nat
  targetLooptime :: nat
  pid_process_denom :: nat
  XYZ_AXIS_COUNT :: nat

record rpmFilterConfig =
  gyro_rpm_notch_harmonics :: nat
  gyro_rpm_notch_min :: nat
  gyro_rpm_notch_q :: nat
  dterm_rpm_notch_harmonics :: nat
  dterm_rpm_notch_min :: nat
  dterm_rpm_notch_q :: nat

record rpmNotchFilter =
  harmonics :: nat
  minHz :: nat
  q :: real
  loopTime :: real
  notch :: "nat \<Rightarrow> nat \<Rightarrow> nat \<Rightarrow> biquadFilter"

text \<open>The file's static variables. A pointer into \<^verbatim>\<open>filters\<close> is the index of the bank it
  points to; \<open>None\<close> is \<^verbatim>\<open>NULL\<close>. The last four fields are the function-local statics of
  \<^verbatim>\<open>rpmFilterUpdate\<close>, the round-robin cursor.\<close>

record rpmState =
  rpmFilters :: "nat \<Rightarrow> pt1Filter"
  erpmToHz :: real
  filteredMotorErpm :: "nat \<Rightarrow> real"
  numberFilters :: nat
  numberRpmNotchFilters :: nat
  filterUpdatesPerIteration :: nat
  pidLooptime :: real
  filters :: "nat \<Rightarrow> rpmNotchFilter"
  gyroFilter :: "nat option"
  dtermFilter :: "nat option"
  motorFrequency :: "nat \<Rightarrow> real"
  motor :: nat
  harmonic :: nat
  filter_idx :: nat
  currentFilter :: nat

definition RPM_MOTOR_FILTER_CUTOFF :: real where "RPM_MOTOR_FILTER_CUTOFF = 150"
definition SECONDS_PER_MINUTE :: real where "SECONDS_PER_MINUTE = 60"
definition ERPM_PER_LSB :: real where "ERPM_PER_LSB = 100"
definition MIN_UPDATE_T :: real where "MIN_UPDATE_T = 0.001"

definition pgResetFn_rpmFilterConfig :: rpmFilterConfig where
  "pgResetFn_rpmFilterConfig =
     \<lparr> gyro_rpm_notch_harmonics = 3, gyro_rpm_notch_min = 100, gyro_rpm_notch_q = 500,
       dterm_rpm_notch_harmonics = 1, dterm_rpm_notch_min = 100, dterm_rpm_notch_q = 500 \<rparr>"

text \<open>The centre frequency \<^verbatim>\<open>minHz * i\<close> that \<^verbatim>\<open>rpmNotchFilterInit\<close> passes to
  \<^verbatim>\<open>biquadFilterInit\<close> for harmonic index \<open>i\<close> (line 88).\<close>

definition initFrequency :: "nat \<Rightarrow> nat \<Rightarrow> real" where
  "initFrequency minHz' i = real (minHz' * i)"

definition setCell ::
  "(nat \<Rightarrow> nat \<Rightarrow> nat \<Rightarrow> biquadFilter) \<Rightarrow> nat \<Rightarrow> nat \<Rightarrow> nat \<Rightarrow> biquadFilter
     \<Rightarrow> (nat \<Rightarrow> nat \<Rightarrow> nat \<Rightarrow> biquadFilter)" where
  "setCell nt axis m i cell = nt(axis := (nt axis)(m := (nt axis m)(i := cell)))"

text \<open>The fields \<^verbatim>\<open>harmonics\<close> and \<^verbatim>\<open>minHz\<close> are 8 bits wide; the loops run on the \<^verbatim>\<open>int\<close>
  parameters.\<close>

definition rpmNotchFilterInit ::
  "filterLib \<Rightarrow> rpmEnv \<Rightarrow> rpmNotchFilter \<Rightarrow> nat \<Rightarrow> nat \<Rightarrow> nat \<Rightarrow> real \<Rightarrow> rpmNotchFilter" where
  "rpmNotchFilterInit lib env f harmonics' minHz' q' looptime =
     (let f = f\<lparr>harmonics := harmonics' mod 256, minHz := minHz' mod 256,
                q := real q' / 100, loopTime := looptime\<rparr>
      in f\<lparr>notch :=
             fold (\<lambda>axis. fold (\<lambda>m. fold (\<lambda>i nt.
                     setCell nt axis m i
                       (biquadFilterInit lib (initFrequency minHz' i) looptime (q f)))
                   [0..<harmonics']) [0..<getMotorCount env]) [0..<XYZ_AXIS_COUNT env]
               (notch f)\<rparr>)"

text \<open>\<^verbatim>\<open>rintf\<close>: the nearest integer, ties to the even one.\<close>

definition rintf :: "real \<Rightarrow> int" where
  "rintf x =
     (let f = \<lfloor>x\<rfloor>; d = x - of_int f
      in if d < 1/2 then f else if 1/2 < d then f + 1 else if even f then f else f + 1)"

text \<open>\<^verbatim>\<open>rpmFilterInit\<close>, in the order of the source. Lines 104-106 and 109-111: take the next
  bank of \<^verbatim>\<open>filters\<close> (\<^verbatim>\<open>&filters[numberRpmNotchFilters++]\<close>) and initialise it; the result
  is the index of the bank and the new state.\<close>

definition takeBank ::
  "filterLib \<Rightarrow> rpmEnv \<Rightarrow> nat \<Rightarrow> nat \<Rightarrow> nat \<Rightarrow> real \<Rightarrow> rpmState \<Rightarrow> nat \<times> rpmState" where
  "takeBank lib env harmonics' minHz' q' looptime s =
     (let n = numberRpmNotchFilters s
      in (n, s\<lparr>numberRpmNotchFilters := (n + 1) mod 256,
                filters := (filters s)(n :=
                  rpmNotchFilterInit lib env (filters s n) harmonics' minHz' q' looptime)\<rparr>))"

text \<open>Lines 103-107 and 108-112. A bank with no harmonics is not taken, and its pointer is
  not assigned.\<close>

definition initGyroBank :: "filterLib \<Rightarrow> rpmEnv \<Rightarrow> rpmFilterConfig \<Rightarrow> rpmState \<Rightarrow> rpmState" where
  "initGyroBank lib env config s =
     (if gyro_rpm_notch_harmonics config \<noteq> 0 then
        let r = takeBank lib env (gyro_rpm_notch_harmonics config) (gyro_rpm_notch_min config)
                  (gyro_rpm_notch_q config) (real (targetLooptime env)) s
        in (snd r)\<lparr>gyroFilter := Some (fst r)\<rparr>
      else s)"

definition initDtermBank :: "filterLib \<Rightarrow> rpmEnv \<Rightarrow> rpmFilterConfig \<Rightarrow> rpmState \<Rightarrow> rpmState" where
  "initDtermBank lib env config s =
     (if dterm_rpm_notch_harmonics config \<noteq> 0 then
        let r = takeBank lib env (dterm_rpm_notch_harmonics config) (dterm_rpm_notch_min config)
                  (dterm_rpm_notch_q config) (pidLooptime s) s
        in (snd r)\<lparr>dtermFilter := Some (fst r)\<rparr>
      else s)"

text \<open>Lines 114-118: the low-pass filters of the motors and the telemetry scale.\<close>

definition initSmoothing :: "filterLib \<Rightarrow> rpmEnv \<Rightarrow> rpmState \<Rightarrow> rpmState" where
  "initSmoothing lib env s =
     s\<lparr>rpmFilters :=
         fold (\<lambda>i rf. rf(i := pt1FilterInit lib
                                 (pt1FilterGain lib RPM_MOTOR_FILTER_CUTOFF (pidLooptime s))))
           [0..<getMotorCount env] (rpmFilters s),
       erpmToHz := ERPM_PER_LSB / SECONDS_PER_MINUTE / (real (motorPoleCount env) / 2)\<rparr>"

text \<open>Lines 120-123: the number of cells, in 8 bits, and the number of cells to recompute in
  each call.\<close>

definition initBudget :: "rpmEnv \<Rightarrow> rpmState \<Rightarrow> rpmState" where
  "initBudget env s =
     (let loopIterationsPerUpdate = MIN_UPDATE_T / (pidLooptime s * 0.000001);
          n = (getMotorCount env * (harmonics (filters s 0) + harmonics (filters s 1))) mod 256;
          filtersPerLoopIteration = real n / loopIterationsPerUpdate
      in s\<lparr>numberFilters := n,
            filterUpdatesPerIteration := nat (rintf (filtersPerLoopIteration + 0.49)) mod 256\<rparr>)"

definition rpmFilterInit :: "filterLib \<Rightarrow> rpmEnv \<Rightarrow> rpmFilterConfig \<Rightarrow> rpmState \<Rightarrow> rpmState" where
  "rpmFilterInit lib env config s0 =
     (let s = s0\<lparr>numberRpmNotchFilters := 0\<rparr>
      in if \<not> dev_useDshotTelemetry env then s\<lparr>gyroFilter := None, dtermFilter := None\<rparr>
         else
           let s = s\<lparr>pidLooptime := real ((targetLooptime env * pid_process_denom env) mod 2 ^ 32)\<rparr>;
               s = initGyroBank lib env config s;
               s = initDtermBank lib env config s;
               s = initSmoothing lib env s
           in initBudget env s)"

text \<open>The state at start-up: statics are zero, pointers are \<^verbatim>\<open>NULL\<close>, and \<^verbatim>\<open>currentFilter\<close>
  is initialised to \<^verbatim>\<open>&filters[0]\<close>.\<close>

definition zeroBiquad :: biquadFilter where
  "zeroBiquad = \<lparr> b0 = 0, b1 = 0, b2 = 0, a1 = 0, a2 = 0, delayLine = [] \<rparr>"

definition startupState :: rpmState where
  "startupState =
     \<lparr> rpmFilters = (\<lambda>_. \<lparr> pt1_state = 0, pt1_k = 0 \<rparr>), erpmToHz = 0,
       filteredMotorErpm = (\<lambda>_. 0), numberFilters = 0, numberRpmNotchFilters = 0,
       filterUpdatesPerIteration = 0, pidLooptime = 0,
       filters = (\<lambda>_. \<lparr> harmonics = 0, minHz = 0, q = 0, loopTime = 0,
                          notch = (\<lambda>_ _ _. zeroBiquad) \<rparr>),
       gyroFilter = None, dtermFilter = None, motorFrequency = (\<lambda>_. 0),
       motor = 0, harmonic = 0, filter_idx = 0, currentFilter = 0 \<rparr>"





subsection \<open>\<^verbatim>\<open>rpmFilterUpdate\<close>\<close>

text \<open>The body of the first loop (line 158): the stored telemetry value of the motor goes
  through the motor's low-pass filter.\<close>

definition smoothErpm :: "filterLib \<Rightarrow> (nat \<Rightarrow> uint16_t) \<Rightarrow> nat \<Rightarrow> rpmState \<Rightarrow> rpmState" where
  "smoothErpm lib telemetry m s =
     (let r = pt1FilterApply lib (rpmFilters s m) (real (unat (telemetry m)))
      in s\<lparr>rpmFilters := (rpmFilters s)(m := fst r),
            filteredMotorErpm := (filteredMotorErpm s)(m := snd r)\<rparr>)"

definition deactivateFreq :: real where "deactivateFreq = 1000"

text \<open>Lines 171-182: the centre frequency of the notch for harmonic index \<open>h\<close>, motor frequency
  \<open>f\<close> and the bank's minimum.\<close>

definition notchFrequency :: "nat \<Rightarrow> real \<Rightarrow> nat \<Rightarrow> real" where
  "notchFrequency h f minHz' =
     (let frequency = real (h + 1) * f;
          frequency = (if frequency < real minHz'
                       then (if frequency < 0.5 * real minHz' then deactivateFreq else real minHz')
                       else frequency);
          frequency = (if frequency > deactivateFreq then deactivateFreq else frequency)
      in frequency)"

definition coefficients :: "biquadFilter \<Rightarrow> real \<times> real \<times> real \<times> real \<times> real" where
  "coefficients cell = (b0 cell, b1 cell, b2 cell, a1 cell, a2 cell)"

definition copyCoefficients :: "biquadFilter \<Rightarrow> biquadFilter \<Rightarrow> biquadFilter" where
  "copyCoefficients template clone =
     clone\<lparr>b0 := b0 template, b1 := b1 template, b2 := b2 template,
           a1 := a1 template, a2 := a2 template\<rparr>"

text \<open>Lines 171-199: recompute the cell under the cursor on axis 0 and copy its coefficients
  to the other axes.\<close>

definition recomputeCell :: "filterLib \<Rightarrow> rpmEnv \<Rightarrow> rpmState \<Rightarrow> rpmState" where
  "recomputeCell lib env s =
     (let cf = filters s (currentFilter s);
          frequency = notchFrequency (harmonic s) (motorFrequency s (motor s)) (minHz cf);
          template = biquadFilterUpdate lib (notch cf 0 (motor s) (harmonic s))
                       frequency (loopTime cf) (q cf);
          nt = setCell (notch cf) 0 (motor s) (harmonic s) template;
          nt = fold (\<lambda>axis nt. setCell nt axis (motor s) (harmonic s)
                                  (copyCoefficients template (nt axis (motor s) (harmonic s))))
                 [1..<XYZ_AXIS_COUNT env] nt
      in s\<lparr>filters := (filters s)(currentFilter s := cf\<lparr>notch := nt\<rparr>)\<rparr>)"

text \<open>Lines 201-211: advance the cursor. The three indices are 8 bits wide.\<close>

definition advanceCursor :: "rpmEnv \<Rightarrow> rpmState \<Rightarrow> rpmState" where
  "advanceCursor env s =
     (let s = s\<lparr>harmonic := (harmonic s + 1) mod 256\<rparr>
      in if harmonic s = harmonics (filters s (currentFilter s)) then
           let s = s\<lparr>harmonic := 0\<rparr>;
               s = s\<lparr>filter_idx := (filter_idx s + 1) mod 256\<rparr>;
               s = (if filter_idx s = numberRpmNotchFilters s then
                      let s = s\<lparr>filter_idx := 0\<rparr>;
                          s = s\<lparr>motor := (motor s + 1) mod 256\<rparr>;
                          s = (if motor s = getMotorCount env then s\<lparr>motor := 0\<rparr> else s)
                      in s\<lparr>motorFrequency :=
                             (motorFrequency s)(motor s := erpmToHz s * filteredMotorErpm s (motor s))\<rparr>
                    else s)
           in s\<lparr>currentFilter := filter_idx s\<rparr>
         else s)"

definition updateStep :: "filterLib \<Rightarrow> rpmEnv \<Rightarrow> rpmState \<Rightarrow> rpmState" where
  "updateStep lib env s = advanceCursor env (recomputeCell lib env s)"

text \<open>The loop \<^verbatim>\<open>for (i = 0; i < filterUpdatesPerIteration; i++)\<close>, counted down.\<close>

primrec updateLoop :: "filterLib \<Rightarrow> rpmEnv \<Rightarrow> nat \<Rightarrow> rpmState \<Rightarrow> rpmState" where
  "updateLoop lib env 0 s = s"
| "updateLoop lib env (Suc n) s = updateLoop lib env n (updateStep lib env s)"

definition rpmFilterUpdate :: "filterLib \<Rightarrow> rpmEnv \<Rightarrow> (nat \<Rightarrow> uint16_t) \<Rightarrow> rpmState \<Rightarrow> rpmState" where
  "rpmFilterUpdate lib env telemetry s =
     (if gyroFilter s = None \<and> dtermFilter s = None then s
      else let s = fold (smoothErpm lib telemetry) [0..<getMotorCount env] s
           in updateLoop lib env (filterUpdatesPerIteration s) s)"


subsection \<open>The cells a call recomputes\<close>

text \<open>A cell is named by the index of its bank in \<^verbatim>\<open>filters\<close>, its motor and its harmonic.
  \<open>visitedCells\<close> lists the cells that \<open>n\<close> iterations of the loop recompute, in order, and
  \<open>rpmFilterUpdateCells\<close> those of one call of \<^verbatim>\<open>rpmFilterUpdate\<close>.\<close>

primrec visitedCells :: "filterLib \<Rightarrow> rpmEnv \<Rightarrow> nat \<Rightarrow> rpmState \<Rightarrow> (nat \<times> nat \<times> nat) list" where
  "visitedCells lib env 0 s = []"
| "visitedCells lib env (Suc n) s =
     (currentFilter s, motor s, harmonic s) # visitedCells lib env n (updateStep lib env s)"

definition rpmFilterUpdateCells ::
  "filterLib \<Rightarrow> rpmEnv \<Rightarrow> (nat \<Rightarrow> uint16_t) \<Rightarrow> rpmState \<Rightarrow> (nat \<times> nat \<times> nat) list" where
  "rpmFilterUpdateCells lib env telemetry s =
     (if gyroFilter s = None \<and> dtermFilter s = None then []
      else let s = fold (smoothErpm lib telemetry) [0..<getMotorCount env] s
           in visitedCells lib env (filterUpdatesPerIteration s) s)"

text \<open>Successive calls; call number \<open>i\<close> reads the telemetry \<open>tel i\<close>.\<close>

primrec rpmFilterUpdateCalls ::
  "filterLib \<Rightarrow> rpmEnv \<Rightarrow> (nat \<Rightarrow> nat \<Rightarrow> uint16_t) \<Rightarrow> nat \<Rightarrow> rpmState \<Rightarrow> rpmState" where
  "rpmFilterUpdateCalls lib env tel 0 s = s"
| "rpmFilterUpdateCalls lib env tel (Suc n) s =
     rpmFilterUpdateCalls lib env (\<lambda>i. tel (Suc i)) n (rpmFilterUpdate lib env (tel 0) s)"

primrec callsCells ::
  "filterLib \<Rightarrow> rpmEnv \<Rightarrow> (nat \<Rightarrow> nat \<Rightarrow> uint16_t) \<Rightarrow> nat \<Rightarrow> rpmState \<Rightarrow> (nat \<times> nat \<times> nat) list" where
  "callsCells lib env tel 0 s = []"
| "callsCells lib env tel (Suc n) s =
     rpmFilterUpdateCells lib env (tel 0) s
       @ callsCells lib env (\<lambda>i. tel (Suc i)) n (rpmFilterUpdate lib env (tel 0) s)"

text \<open>The table of both banks in the order motors, then banks, then harmonics; its size as
  line 121 computes it; the place of the cursor in that order.\<close>

definition tableCells :: "rpmEnv \<Rightarrow> rpmState \<Rightarrow> (nat \<times> nat \<times> nat) list" where
  "tableCells env s =
     concat (map (\<lambda>m. concat (map (\<lambda>n. map (\<lambda>h. (n, m, h)) [0..<harmonics (filters s n)])
                                 [0..<numberRpmNotchFilters s]))
               [0..<getMotorCount env])"

definition totalCells :: "rpmEnv \<Rightarrow> rpmState \<Rightarrow> nat" where
  "totalCells env s = getMotorCount env * (harmonics (filters s 0) + harmonics (filters s 1))"

definition cursorPosition :: "rpmState \<Rightarrow> nat" where
  "cursorPosition s =
     motor s * (harmonics (filters s 0) + harmonics (filters s 1))
       + (if filter_idx s = 0 then 0 else harmonics (filters s 0)) + harmonic s"

text \<open>The cell at place \<open>i\<close> of that order.\<close>

definition cellAt :: "rpmState \<Rightarrow> nat \<Rightarrow> nat \<times> nat \<times> nat" where
  "cellAt s i =
     (let H = harmonics (filters s 0) + harmonics (filters s 1);
          m = i div H; r = i mod H
      in if r < harmonics (filters s 0) then (0, m, r) else (1, m, r - harmonics (filters s 0)))"

text \<open>The cursor points into the table: one or two banks are active, each active bank has
  at least one harmonic, an unused second bank has none, and the three indices are in range.
  The counts fit their 8-bit variables.\<close>

definition cursorValid :: "rpmEnv \<Rightarrow> rpmState \<Rightarrow> bool" where
  "cursorValid env s \<longleftrightarrow>
     0 < getMotorCount env \<and> getMotorCount env < 256 \<and>
     (numberRpmNotchFilters s = 1 \<or> numberRpmNotchFilters s = 2) \<and>
     0 < harmonics (filters s 0) \<and> harmonics (filters s 0) < 256 \<and>
     (if numberRpmNotchFilters s = 2
      then 0 < harmonics (filters s 1) \<and> harmonics (filters s 1) < 256
      else harmonics (filters s 1) = 0) \<and>
     motor s < getMotorCount env \<and>
     filter_idx s < numberRpmNotchFilters s \<and>
     currentFilter s = filter_idx s \<and>
     harmonic s < harmonics (filters s (currentFilter s))"

subsection \<open>Concrete instances\<close>

text \<open>Modelled from the spec: the low-pass filter of the filter library, which is not among
  the sources. The spec calls it a first-order low-pass filter: the state moves towards the
  input by the fraction \<open>k\<close> of their distance, and the new state is returned.\<close>

definition pt1FilterApply_spec :: "pt1Filter \<Rightarrow> real \<Rightarrow> pt1Filter \<times> real" where
  "pt1FilterApply_spec f input =
     (let st = pt1_state f + pt1_k f * (input - pt1_state f)
      in (f\<lparr>pt1_state := st\<rparr>, st))"

text \<open>A stand-in for the filter library, for concrete runs: a biquad cell stores the
  arguments it was set from, and applying it scales the sample and records it.\<close>

definition standInLib :: filterLib where
  "standInLib =
     \<lparr> biquadFilterInit = (\<lambda>f t r. \<lparr> b0 = f, b1 = t, b2 = r, a1 = 0, a2 = 0, delayLine = [] \<rparr>),
       biquadFilterUpdate = (\<lambda>cell f t r. cell\<lparr>b0 := f, b1 := t, b2 := r\<rparr>),
       biquadFilterApplyDF1 = (\<lambda>cell x. (cell\<lparr>delayLine := x # delayLine cell\<rparr>, b0 cell * x)),
       pt1FilterGain = (\<lambda>f_cut dT. 1 / 2),
       pt1FilterInit = (\<lambda>g. \<lparr> pt1_state = 0, pt1_k = g \<rparr>),
       pt1FilterApply = pt1FilterApply_spec \<rparr>"

text \<open>A DShot motor that has captured \<open>buffer\<close> while its last valid telemetry value is
  \<open>old\<close>, and a driver state in which every motor is such a motor.\<close>

definition capturedMotor :: "uint32_t list \<Rightarrow> uint16_t \<Rightarrow> motorDmaOutput" where
  "capturedMotor buffer old =
     \<lparr> hasTelemetry = True, useProshot = False, isInput = True, dmaBuffer = buffer,
       dshotTelemetryValue = old \<rparr>"

definition capturedState :: "uint32_t list \<Rightarrow> uint16_t \<Rightarrow> dshotState" where
  "capturedState buffer old =
     \<lparr> useDshotTelemetry = True, dmaMotors = (\<lambda>_. capturedMotor buffer old),
       dshotInvalidPacketCount = 0, inputBuffer = [] \<rparr>"

text \<open>A capture whose first bit is 0 and whose other bits are 1: its checksum fails.\<close>

definition badCapture :: "uint32_t list" where
  "badCapture = [0, 5] @ replicate 30 0"

text \<open>A capture of sixteen 1 bits: it decodes to 0xfff.\<close>

definition goodCapture :: "uint32_t list" where
  "goodCapture = replicate 32 0"

text \<open>A quadcopter with 14-pole motors and a 125 microsecond gyro and PID loop.\<close>

definition quadEnv :: rpmEnv where
  "quadEnv =
     \<lparr> getMotorCount = 4, dev_useDshotTelemetry = True, motorPoleCount = 14,
       targetLooptime = 125, pid_process_denom = 1, XYZ_AXIS_COUNT = 3 \<rparr>"

text \<open>Its filter state after \<^verbatim>\<open>rpmFilterInit\<close> at start-up with the default configuration.\<close>

definition quadState :: rpmState where
  "quadState = rpmFilterInit standInLib quadEnv pgResetFn_rpmFilterConfig startupState"

section \<open>Properties of the telemetry decoders\<close>

lemma xorFold_xor:
  "xorFold (a XOR b) AND 0xf = (xorFold a AND 0xf) XOR (xorFold b AND 0xf)"
  unfolding xorFold_def Let_def
  by (rule bit_eqI) (auto simp add: bit_simps)

lemma nibble_bits:
  fixes d :: uint32_t
  assumes "d < 16" and "bit d n"
  shows "n < 4"
proof -
  have "d < 2 ^ 4" using assms(1) by simp
  then have "d AND mask 4 = d" by (rule less_mask_eq)
  then have "bit (d AND mask 4) n" using assms(2) by simp
  then show ?thesis by (simp add: bit_simps)
qed

lemma xorFold_nibble:
  fixes d :: uint32_t
  assumes d: "d < 16" and j: "j < 4"
  shows "xorFold (push_bit (4 * j) d) AND 0xf = d"
proof -
  have hi: "\<And>n. bit d n \<Longrightarrow> n < 4" using nibble_bits [OF d] .
  have m: "(0xf :: uint32_t) = mask 4" by (simp add: mask_eq_exp_minus_1)
  from j consider "j = 0" | "j = 1" | "j = 2" | "j = 3" by linarith
  then show ?thesis
  proof cases
    case 1 then show ?thesis unfolding xorFold_def Let_def m
      by (intro bit_eqI) (auto simp add: bit_simps dest: hi)
  next
    case 2 then show ?thesis unfolding xorFold_def Let_def m
      by (intro bit_eqI) (auto simp add: bit_simps dest: hi)
  next
    case 3 then show ?thesis unfolding xorFold_def Let_def m
      by (intro bit_eqI) (auto simp add: bit_simps dest: hi)
  next
    case 4 then show ?thesis unfolding xorFold_def Let_def m
      by (intro bit_eqI) (auto simp add: bit_simps dest: hi)
  qed
qed

lemma shift_or_fits:
  fixes v b :: uint32_t
  assumes v: "drop_bit k v = 0" and b: "drop_bit m b = 0"
  shows "drop_bit (k + m) (push_bit m v OR b) = 0"
proof (rule bit_eqI)
  fix n
  have nv: "\<not> bit v (k + i)" for i
  proof -
    have "bit (drop_bit k v) i = bit (0::uint32_t) i" by (simp only: v)
    then show ?thesis by (simp add: bit_drop_bit_eq)
  qed
  have nb: "\<not> bit b (m + i)" for i
  proof -
    have "bit (drop_bit m b) i = bit (0::uint32_t) i" by (simp only: b)
    then show ?thesis by (simp add: bit_drop_bit_eq)
  qed
  have "\<not> bit (push_bit m v) (k + m + n)"
    using nv [of n] by (simp add: bit_push_bit_iff)
  moreover have "\<not> bit b (k + m + n)"
    using nb [of "k + n"] by (simp add: ac_simps)
  ultimately show "bit (drop_bit (k + m) (push_bit m v OR b)) n = bit (0::uint32_t) n"
    by (simp add: bit_drop_bit_eq bit_or_iff ac_simps)
qed

lemma drop_bit_mono_zero:
  fixes v :: uint32_t
  assumes "drop_bit k v = 0" and "k \<le> k'"
  shows "drop_bit k' v = 0"
proof -
  have "drop_bit k' v = drop_bit (k' - k) (drop_bit k v)"
    using assms(2) by (simp add: drop_bit_drop_bit)
  then show ?thesis by (simp add: assms(1))
qed

lemma nibble_fits: "drop_bit 4 (word_of_int (x AND 0xf) :: uint32_t) = 0"
proof -
  have m: "(0xf :: int) = mask 4" by (simp add: mask_eq_exp_minus_1)
  have "drop_bit 4 (word_of_int (x AND mask 4) :: uint32_t) = 0"
    by (rule bit_eqI) (simp add: bit_simps)
  then show ?thesis by (simp only: m)
qed

lemma dshotStep_cases:
  "dshotStep cur prev value = push_bit 1 value OR 1 \<or> dshotStep cur prev value = push_bit 1 value OR 0"
  unfolding dshotStep_def Let_def by (simp del: push_bit_of_Suc_0)

lemma dshotStep_fits:
  assumes "drop_bit k value = 0"
  shows "drop_bit (k + 1) (dshotStep cur prev value) = 0"
proof -
  have a: "drop_bit (k + 1) (push_bit 1 value OR 1) = 0"
    by (rule shift_or_fits [OF assms]) simp
  have b: "drop_bit (k + 1) (push_bit 1 value OR 0) = 0"
    by (rule shift_or_fits [OF assms]) simp
  from dshotStep_cases [of cur prev "value"] a b show ?thesis
    by (elim disjE) (simp_all only:)
qed

lemma proshotStep_cases:
  "proshotStep c cur prev value = Some value' \<Longrightarrow>
     \<exists>x. value' = push_bit 4 value OR word_of_int (x AND 0xf)"
  unfolding proshotStep_def Let_def
  by (auto split: if_splits
      simp del: and.left_neutral and.right_neutral and_zero_eq zero_and_eq intro: exI [of _ 0])

lemma proshotStep_fits:
  assumes "proshotStep c cur prev value = Some value'" and "drop_bit k value = 0"
  shows "drop_bit (k + 4) value' = 0"
proof -
  from proshotStep_cases [OF assms(1)] obtain x
    where "value' = push_bit 4 value OR word_of_int (x AND 0xf)" ..
  then show ?thesis
    using shift_or_fits [OF assms(2) nibble_fits, of x] by (simp only:)
qed

lemma proshotStep_total:
  assumes "MOTOR_NIBBLE_LENGTH_PROSHOT c mod 2 ^ 32 \<noteq> 0" and "PROSHOT_BIT_WIDTH c \<noteq> 0"
  shows "\<exists>value'. proshotStep c cur prev value = Some value'"
proof -
  have "(word_of_nat (MOTOR_NIBBLE_LENGTH_PROSHOT c) :: uint32_t) \<noteq> 0"
    using assms(1) by (simp add: word_of_nat_eq_0_iff dvd_eq_mod_eq_0)
  then show ?thesis
    using assms(2) unfolding proshotStep_def Let_def by simp
qed

text \<open>The loops return a word for every buffer that is long enough.\<close>

lemma dshotLoop_total:
  "n \<le> length buffer \<Longrightarrow> \<exists>v. dshotLoop n buffer i value = Some v"
proof (induction n buffer i "value" rule: dshotLoop.induct)
  case (1 n buffer i "value")
  show ?case
  proof (cases "i < n")
    case True
    with "1.prems" have "i < length buffer" by simp
    with True "1.IH" "1.prems" show ?thesis by (subst dshotLoop.simps) simp
  next
    case False
    then show ?thesis by (subst dshotLoop.simps) simp
  qed
qed

lemma proshotLoop_total:
  "MOTOR_NIBBLE_LENGTH_PROSHOT c mod 2 ^ 32 \<noteq> 0 \<Longrightarrow> PROSHOT_BIT_WIDTH c \<noteq> 0 \<Longrightarrow>
     n \<le> length buffer \<Longrightarrow> \<exists>v. proshotLoop c n buffer i value = Some v"
proof (induction c n buffer i "value" rule: proshotLoop.induct)
  case (1 c n buffer i "value")
  show ?case
  proof (cases "i < n")
    case True
    with "1.prems" have len: "i < length buffer" by simp
    from proshotStep_total [OF "1.prems"(1,2)] obtain value'
      where st: "proshotStep c (buffer ! i) (buffer ! (i - 1)) value = Some value'" by blast
    from "1.IH" [OF True len st "1.prems"]
    obtain v where "proshotLoop c n buffer (i + 2) value' = Some v" by blast
    with True len st show ?thesis by (subst proshotLoop.simps) simp
  next
    case False
    then show ?thesis by (subst proshotLoop.simps) simp
  qed
qed

lemma iter_count: "i < n \<Longrightarrow> (Suc n - i) div 2 = Suc ((Suc n - (i + 2)) div 2)"
  by arith

text \<open>Each iteration adds one bit (DShot) or four bits (Proshot) to the accumulated word.\<close>

lemma dshotLoop_fits:
  "dshotLoop n buffer i value = Some v \<Longrightarrow> drop_bit k value = 0 \<Longrightarrow>
     drop_bit (k + (Suc n - i) div 2) v = 0"
proof (induction n buffer i "value" arbitrary: k rule: dshotLoop.induct)
  case (1 n buffer i "value")
  show ?case
  proof (cases "i < n")
    case True
    from "1.prems"(1) True have len: "i < length buffer"
      by (subst (asm) dshotLoop.simps) (simp split: if_splits)
    from "1.prems"(1) True len
    have rec: "dshotLoop n buffer (i + 2) (dshotStep (buffer ! i) (buffer ! (i - 1)) value) = Some v"
      by (subst (asm) dshotLoop.simps) simp
    from "1.IH" [OF True len rec dshotStep_fits [OF "1.prems"(2)]]
    have r: "drop_bit (k + 1 + (Suc n - (i + 2)) div 2) v = 0" .
    have e: "k + 1 + (Suc n - (i + 2)) div 2 = k + (Suc n - i) div 2"
      by (simp add: iter_count [OF True])
    from r show ?thesis unfolding e .
  next
    case False
    with "1.prems"(1) have "v = value" by (subst (asm) dshotLoop.simps) simp
    moreover from False have "(Suc n - i) div 2 = 0" by simp
    ultimately show ?thesis using "1.prems"(2) by simp
  qed
qed

lemma proshotLoop_fits:
  "proshotLoop c n buffer i value = Some v \<Longrightarrow> drop_bit k value = 0 \<Longrightarrow>
     drop_bit (k + 4 * ((Suc n - i) div 2)) v = 0"
proof (induction c n buffer i "value" arbitrary: k rule: proshotLoop.induct)
  case (1 c n buffer i "value")
  show ?case
  proof (cases "i < n")
    case True
    from "1.prems"(1) True have len: "i < length buffer"
      by (subst (asm) proshotLoop.simps) (simp split: if_splits)
    from "1.prems"(1) True len obtain value'
      where st: "proshotStep c (buffer ! i) (buffer ! (i - 1)) value = Some value'"
        and rec: "proshotLoop c n buffer (i + 2) value' = Some v"
      by (subst (asm) proshotLoop.simps) (simp split: option.splits)
    from "1.IH" [OF True len st rec proshotStep_fits [OF st "1.prems"(2)]]
    have r: "drop_bit (k + 4 + 4 * ((Suc n - (i + 2)) div 2)) v = 0" .
    have e: "k + 4 + 4 * ((Suc n - (i + 2)) div 2) = k + 4 * ((Suc n - i) div 2)"
      by (simp add: iter_count [OF True])
    from r show ?thesis unfolding e .
  next
    case False
    with "1.prems"(1) have "v = value" by (subst (asm) proshotLoop.simps) simp
    moreover from False have "(Suc n - i) div 2 = 0" by simp
    ultimately show ?thesis using "1.prems"(2) by simp
  qed
qed

lemma dshotValue_fits:
  assumes "dshotValue c buffer = Some v" and "DSHOT_TELEMETRY_INPUT_LEN c div 2 \<le> 16"
  shows "drop_bit 16 v = 0"
proof -
  have "drop_bit (0 + (Suc (DSHOT_TELEMETRY_INPUT_LEN c) - 1) div 2) v = 0"
    by (rule dshotLoop_fits [OF assms(1) [unfolded dshotValue_def]]) simp
  then have "drop_bit (DSHOT_TELEMETRY_INPUT_LEN c div 2) v = 0" by simp
  then show ?thesis using assms(2) by (rule drop_bit_mono_zero)
qed

lemma proshotValue_fits:
  assumes "proshotValue c buffer = Some v" and "PROSHOT_TELEMETRY_INPUT_LEN c div 2 \<le> 4"
  shows "drop_bit 16 v = 0"
proof -
  have "drop_bit (0 + 4 * ((Suc (PROSHOT_TELEMETRY_INPUT_LEN c) - 1) div 2)) v = 0"
    by (rule proshotLoop_fits [OF assms(1) [unfolded proshotValue_def]]) simp
  then have "drop_bit (4 * (PROSHOT_TELEMETRY_INPUT_LEN c div 2)) v = 0" by simp
  moreover have "4 * (PROSHOT_TELEMETRY_INPUT_LEN c div 2) \<le> 16" using assms(2) by simp
  ultimately show ?thesis by (rule drop_bit_mono_zero)
qed

text \<open>A 16-bit accumulated word leaves a 12-bit payload.\<close>

lemma payload_less:
  fixes v :: uint32_t
  assumes "drop_bit 16 v = 0"
  shows "(ucast (drop_bit 4 v) :: uint16_t) < 0x1000"
proof -
  have nv: "\<not> bit v (16 + i)" for i
  proof -
    have "bit (drop_bit 16 v) i = bit (0::uint32_t) i" by (simp only: assms)
    then show ?thesis by (simp add: bit_drop_bit_eq)
  qed
  have hi: "n < 12" if "bit v (4 + n)" for n
  proof (rule ccontr)
    assume "\<not> n < 12"
    then have "12 \<le> n" by simp
    then obtain j where j: "n = 12 + j" by (auto dest: le_Suc_ex)
    from that have "bit v (16 + j)" unfolding j by simp
    with nv [of j] show False by simp
  qed
  have "(ucast (drop_bit 4 v) :: uint16_t) AND mask 12 = ucast (drop_bit 4 v)"
    by (rule bit_eqI) (auto simp add: bit_simps dest: hi)
  moreover have "12 < size (ucast (drop_bit 4 v) :: uint16_t)" by (simp add: word_size)
  ultimately have "(ucast (drop_bit 4 v) :: uint16_t) < 2 ^ 12"
    by (simp only: mask_eq_iff_w2p)
  then show ?thesis by simp
qed

lemma payload_not_sentinel:
  fixes v :: uint32_t
  assumes "drop_bit 16 v = 0"
  shows "(ucast (drop_bit 4 v) :: uint16_t) \<noteq> 0xffff"
  using payload_less [OF assms] by auto

lemma checkedPayload_sentinel_iff:
  assumes "drop_bit 16 v = 0"
  shows "checkedPayload v = 0xffff \<longleftrightarrow> checksumFails v"
  using payload_not_sentinel [OF assms] by (simp add: checkedPayload_def)

lemma checkedPayload_less:
  assumes "drop_bit 16 v = 0" and "checkedPayload v \<noteq> 0xffff"
  shows "checkedPayload v < 0x1000"
  using assms payload_less [OF assms(1)] by (simp add: checkedPayload_def split: if_splits)

text \<open>
  C3. Both decoders return a value for every buffer of the expected length (16 bits for
  DShot, 4 nibbles for Proshot; a nonzero symbol length and bit width for Proshot). With \<open>v\<close>
  the accumulated word, the value is the sentinel 0xffff if and only if the byte-then-nibble
  XOR fold of \<open>v\<close>, that is \<open>v XOR (v >> 8)\<close> folded once more with its own shift by 4, has a
  nonzero low nibble; otherwise it is \<open>v\<close> shifted right by four bits.
\<close>

theorem decoders_total_and_checked:
  assumes "length dbuf = DSHOT_TELEMETRY_INPUT_LEN c"
    and "DSHOT_TELEMETRY_INPUT_LEN c div 2 \<le> 16"
    and "length pbuf = PROSHOT_TELEMETRY_INPUT_LEN c"
    and "PROSHOT_TELEMETRY_INPUT_LEN c div 2 \<le> 4"
    and "MOTOR_NIBBLE_LENGTH_PROSHOT c mod 2 ^ 32 \<noteq> 0"
    and "PROSHOT_BIT_WIDTH c \<noteq> 0"
  shows "(\<exists>v. dshotValue c dbuf = Some v \<and>
              decodeDshotPacket c dbuf
                = Some (if ((v XOR drop_bit 8 v) XOR drop_bit 4 (v XOR drop_bit 8 v)) AND 0xf \<noteq> 0
                        then 0xffff else ucast (drop_bit 4 v)) \<and>
              (decodeDshotPacket c dbuf = Some 0xffff
                 \<longleftrightarrow> ((v XOR drop_bit 8 v) XOR drop_bit 4 (v XOR drop_bit 8 v)) AND 0xf \<noteq> 0)) \<and>
         (\<exists>v. proshotValue c pbuf = Some v \<and>
              decodeProshotPacket c pbuf
                = Some (if ((v XOR drop_bit 8 v) XOR drop_bit 4 (v XOR drop_bit 8 v)) AND 0xf \<noteq> 0
                        then 0xffff else ucast (drop_bit 4 v)) \<and>
              (decodeProshotPacket c pbuf = Some 0xffff
                 \<longleftrightarrow> ((v XOR drop_bit 8 v) XOR drop_bit 4 (v XOR drop_bit 8 v)) AND 0xf \<noteq> 0))"
proof (rule conjI)
  from dshotLoop_total [of "DSHOT_TELEMETRY_INPUT_LEN c" dbuf 1 0] assms(1)
  obtain v where v: "dshotValue c dbuf = Some v" by (auto simp: dshotValue_def)
  from dshotValue_fits [OF v assms(2)] have fits: "drop_bit 16 v = 0" .
  have "decodeDshotPacket c dbuf
          = Some (if ((v XOR drop_bit 8 v) XOR drop_bit 4 (v XOR drop_bit 8 v)) AND 0xf \<noteq> 0
                  then 0xffff else ucast (drop_bit 4 v))"
    by (simp add: decodeDshotPacket_def v checkedPayload_def checksumFails_def xorFold_def Let_def)
  moreover have "decodeDshotPacket c dbuf = Some 0xffff
           \<longleftrightarrow> ((v XOR drop_bit 8 v) XOR drop_bit 4 (v XOR drop_bit 8 v)) AND 0xf \<noteq> 0"
    using checkedPayload_sentinel_iff [OF fits]
    by (simp add: decodeDshotPacket_def v checksumFails_def xorFold_def Let_def)
  ultimately show "\<exists>v. dshotValue c dbuf = Some v \<and>
              decodeDshotPacket c dbuf
                = Some (if ((v XOR drop_bit 8 v) XOR drop_bit 4 (v XOR drop_bit 8 v)) AND 0xf \<noteq> 0
                        then 0xffff else ucast (drop_bit 4 v)) \<and>
              (decodeDshotPacket c dbuf = Some 0xffff
                 \<longleftrightarrow> ((v XOR drop_bit 8 v) XOR drop_bit 4 (v XOR drop_bit 8 v)) AND 0xf \<noteq> 0)"
    using v by blast
next
  from proshotLoop_total [OF assms(5,6), of "PROSHOT_TELEMETRY_INPUT_LEN c" pbuf 1 0] assms(3)
  obtain v where v: "proshotValue c pbuf = Some v" by (auto simp: proshotValue_def)
  from proshotValue_fits [OF v assms(4)] have fits: "drop_bit 16 v = 0" .
  have "decodeProshotPacket c pbuf
          = Some (if ((v XOR drop_bit 8 v) XOR drop_bit 4 (v XOR drop_bit 8 v)) AND 0xf \<noteq> 0
                  then 0xffff else ucast (drop_bit 4 v))"
    by (simp add: decodeProshotPacket_def v checkedPayload_def checksumFails_def xorFold_def Let_def)
  moreover have "decodeProshotPacket c pbuf = Some 0xffff
           \<longleftrightarrow> ((v XOR drop_bit 8 v) XOR drop_bit 4 (v XOR drop_bit 8 v)) AND 0xf \<noteq> 0"
    using checkedPayload_sentinel_iff [OF fits]
    by (simp add: decodeProshotPacket_def v checksumFails_def xorFold_def Let_def)
  ultimately show "\<exists>v. proshotValue c pbuf = Some v \<and>
              decodeProshotPacket c pbuf
                = Some (if ((v XOR drop_bit 8 v) XOR drop_bit 4 (v XOR drop_bit 8 v)) AND 0xf \<noteq> 0
                        then 0xffff else ucast (drop_bit 4 v)) \<and>
              (decodeProshotPacket c pbuf = Some 0xffff
                 \<longleftrightarrow> ((v XOR drop_bit 8 v) XOR drop_bit 4 (v XOR drop_bit 8 v)) AND 0xf \<noteq> 0)"
    using v by blast
qed

text \<open>Two captures: sixteen bits of which the first is 0 (the word 0x7fff, whose fold has the
  low nibble 8: rejected), and the four Proshot nibbles 5, a, f, 0 (the word 0x5af0, whose
  fold has the low nibble 0: the payload 0x5af is returned).\<close>

theorem decoders_total_and_checked_witness:
  "dshotValue betaflightConsts ([0, 5] @ replicate 30 0) = Some 0x7fff \<and>
   ((0x7fff XOR drop_bit 8 0x7fff) XOR drop_bit 4 (0x7fff XOR drop_bit 8 0x7fff)) AND 0xf
     = (8 :: uint32_t) \<and>
   decodeDshotPacket betaflightConsts ([0, 5] @ replicate 30 0) = Some 0xffff \<and>
   proshotValue betaflightConsts [0, 39, 0, 55, 100, 168, 50, 75] = Some 0x5af0 \<and>
   ((0x5af0 XOR drop_bit 8 0x5af0) XOR drop_bit 4 (0x5af0 XOR drop_bit 8 0x5af0)) AND 0xf
     = (0 :: uint32_t) \<and>
   decodeProshotPacket betaflightConsts [0, 39, 0, 55, 100, 168, 50, 75] = Some 0x5af"
proof -
  have d: "dshotValue betaflightConsts ([0, 5] @ replicate 30 0) = Some 0x7fff" by code_simp
  have p: "proshotValue betaflightConsts [0, 39, 0, 55, 100, 168, 50, 75] = Some 0x5af0"
    by code_simp
  have fd: "((0x7fff XOR drop_bit 8 0x7fff) XOR drop_bit 4 (0x7fff XOR drop_bit 8 0x7fff)) AND 0xf
     = (8 :: uint32_t)" by code_simp
  have fp: "((0x5af0 XOR drop_bit 8 0x5af0) XOR drop_bit 4 (0x5af0 XOR drop_bit 8 0x5af0)) AND 0xf
     = (0 :: uint32_t)" by code_simp
  have sh: "(ucast (drop_bit 4 (0x5af0 :: uint32_t)) :: uint16_t) = 0x5af" by code_simp
  have c: "length ([0, 5] @ replicate 30 0 :: uint32_t list) = DSHOT_TELEMETRY_INPUT_LEN betaflightConsts"
    "DSHOT_TELEMETRY_INPUT_LEN betaflightConsts div 2 \<le> 16"
    "length ([0, 39, 0, 55, 100, 168, 50, 75] :: uint32_t list)
       = PROSHOT_TELEMETRY_INPUT_LEN betaflightConsts"
    "PROSHOT_TELEMETRY_INPUT_LEN betaflightConsts div 2 \<le> 4"
    "MOTOR_NIBBLE_LENGTH_PROSHOT betaflightConsts mod 2 ^ 32 \<noteq> 0"
    "PROSHOT_BIT_WIDTH betaflightConsts \<noteq> 0"
    by (simp_all add: betaflightConsts_def)
  from decoders_total_and_checked [OF c] d p fd fp sh show ?thesis
    by simp
qed

text \<open>
  C9. If the checksum check accepts a word, it rejects every word that differs from it in
  exactly one of its four nibbles (the nibble at position \<open>j\<close> changed by a nonzero \<open>d\<close>): the
  tail of both decoders then returns the sentinel, and so does either decoder on a buffer that
  accumulates to the corrupted word.
\<close>

theorem checksum_rejects_single_nibble_corruption:
  assumes "\<not> checksumFails w" and "d \<noteq> 0" and "d < 16" and "j < 4"
  shows "checksumFails (w XOR push_bit (4 * j) d) \<and>
         checkedPayload (w XOR push_bit (4 * j) d) = 0xffff \<and>
         (dshotValue c dbuf = Some (w XOR push_bit (4 * j) d)
            \<longrightarrow> decodeDshotPacket c dbuf = Some 0xffff) \<and>
         (proshotValue c pbuf = Some (w XOR push_bit (4 * j) d)
            \<longrightarrow> decodeProshotPacket c pbuf = Some 0xffff)"
proof -
  have "xorFold (w XOR push_bit (4 * j) d) AND 0xf
          = (xorFold w AND 0xf) XOR (xorFold (push_bit (4 * j) d) AND 0xf)"
    by (rule xorFold_xor)
  also have "\<dots> = 0 XOR d"
    using assms(1) xorFold_nibble [OF assms(3,4)] by (simp add: checksumFails_def)
  finally have "xorFold (w XOR push_bit (4 * j) d) AND 0xf = d" by simp
  with assms(2) have f: "checksumFails (w XOR push_bit (4 * j) d)"
    by (simp add: checksumFails_def)
  then have p: "checkedPayload (w XOR push_bit (4 * j) d) = 0xffff"
    by (simp add: checkedPayload_def)
  from f p show ?thesis
    by (simp add: decodeDshotPacket_def decodeProshotPacket_def)
qed

theorem checksum_rejects_single_nibble_corruption_witness:
  "\<not> checksumFails 0x5af0 \<and> (4::uint32_t) \<noteq> 0 \<and> (4::uint32_t) < 16 \<and> (1::nat) < 4 \<and>
   checksumFails (0x5af0 XOR push_bit (4 * 1) 4) \<and>
   checkedPayload (0x5af0 XOR push_bit (4 * 1) 4) = 0xffff \<and>
   dshotValue betaflightConsts
     [0,5, 0,0, 0,5, 0,0,  0,0, 0,5, 0,0, 0,5,  0,0, 0,5, 0,0, 0,0,  0,5, 0,5, 0,5, 0,5]
     = Some (0x5af0 XOR push_bit (4 * 1) 4) \<and>
   decodeDshotPacket betaflightConsts
     [0,5, 0,0, 0,5, 0,0,  0,0, 0,5, 0,0, 0,5,  0,0, 0,5, 0,0, 0,0,  0,5, 0,5, 0,5, 0,5]
     = Some 0xffff \<and>
   proshotValue betaflightConsts [0, 39, 0, 55, 100, 157, 50, 75]
     = Some (0x5af0 XOR push_bit (4 * 1) 4) \<and>
   decodeProshotPacket betaflightConsts [0, 39, 0, 55, 100, 157, 50, 75] = Some 0xffff"
proof -
  have a: "\<not> checksumFails 0x5af0" by code_simp
  have p: "proshotValue betaflightConsts [0, 39, 0, 55, 100, 157, 50, 75]
             = Some (0x5af0 XOR push_bit (4 * 1) 4)" by code_simp
  have q: "dshotValue betaflightConsts
     [0,5, 0,0, 0,5, 0,0,  0,0, 0,5, 0,0, 0,5,  0,0, 0,5, 0,0, 0,0,  0,5, 0,5, 0,5, 0,5]
     = Some (0x5af0 XOR push_bit (4 * 1) 4)"
    by code_simp
  have h: "(4::uint32_t) \<noteq> 0" "(4::uint32_t) < 16" "(1::nat) < 4" by simp_all
  from checksum_rejects_single_nibble_corruption [OF a h, of betaflightConsts
      "[0,5, 0,0, 0,5, 0,0,  0,0, 0,5, 0,0, 0,5,  0,0, 0,5, 0,0, 0,0,  0,5, 0,5, 0,5, 0,5]"
      "[0, 39, 0, 55, 100, 157, 50, 75]"] a p q h
  show ?thesis by blast
qed

section \<open>Properties of \<^verbatim>\<open>pwmStartDshotMotorUpdate\<close>\<close>

lemma decodeTelemetry_range:
  assumes "DSHOT_TELEMETRY_INPUT_LEN c div 2 \<le> 16"
    and "PROSHOT_TELEMETRY_INPUT_LEN c div 2 \<le> 4"
    and "decodeTelemetry c m = Some r" and "r \<noteq> 0xffff"
  shows "r < 0x1000"
proof (cases "useProshot m")
  case True
  with assms(3) obtain v where v: "proshotValue c (dmaBuffer m) = Some v" and r: "r = checkedPayload v"
    by (auto simp: decodeTelemetry_def decodeProshotPacket_def)
  from checkedPayload_less [OF proshotValue_fits [OF v assms(2)]] assms(4) r show ?thesis by simp
next
  case False
  with assms(3) obtain v where v: "dshotValue c (dmaBuffer m) = Some v" and r: "r = checkedPayload v"
    by (auto simp: decodeTelemetry_def decodeDshotPacket_def)
  from checkedPayload_less [OF dshotValue_fits [OF v assms(1)]] assms(4) r show ?thesis by simp
qed

text \<open>What one iteration does to the motors and to the counter.\<close>

lemma startMotorUpdate_other:
  "startMotorUpdate c i s = Some s' \<Longrightarrow> j \<noteq> i \<Longrightarrow> dmaMotors s' j = dmaMotors s j"
  by (auto simp: startMotorUpdate_def Let_def split: if_splits option.splits)

lemma startMotorUpdate_value:
  "startMotorUpdate c i s = Some s' \<Longrightarrow>
     dshotTelemetryValue (dmaMotors s' i)
       = telemetryAfter c (dmaMotors s i)"
  by (auto simp: startMotorUpdate_def Let_def pwmDshotSetDirectionOutput_def telemetryAfter_def
      split: if_splits option.splits)

lemma startMotorUpdate_count:
  "startMotorUpdate c i s = Some s' \<Longrightarrow>
     dshotInvalidPacketCount s'
       = dshotInvalidPacketCount s + (if invalidCapture c (dmaMotors s i) then 1 else 0)"
  by (auto simp: startMotorUpdate_def Let_def invalidCapture_def split: if_splits option.splits)

lemma startMotorUpdate_total:
  "decodeTelemetry c (dmaMotors s i) \<noteq> None \<or> \<not> hasTelemetry (dmaMotors s i) \<Longrightarrow>
     \<exists>s'. startMotorUpdate c i s = Some s'"
  by (auto simp: startMotorUpdate_def Let_def split: if_splits option.splits)

text \<open>The loop over the motors: iteration \<open>j\<close> sees motor \<open>j\<close> as it was before the loop.\<close>

lemma startMotorLoop_effect:
  "startMotorLoop c n i s = Some s' \<Longrightarrow>
     (\<forall>j. \<not> (i \<le> j \<and> j < n) \<longrightarrow> dmaMotors s' j = dmaMotors s j) \<and>
     (\<forall>j. i \<le> j \<and> j < n \<longrightarrow>
        dshotTelemetryValue (dmaMotors s' j)
          = telemetryAfter c (dmaMotors s j)) \<and>
     dshotInvalidPacketCount s'
       = dshotInvalidPacketCount s
           + of_nat (length (filter (\<lambda>j. invalidCapture c (dmaMotors s j)) [i..<n]))"
proof (induction c n i s rule: startMotorLoop.induct)
  case (1 c n i s)
  show ?case
  proof (cases "i < n")
    case False
    with "1.prems" have "s' = s" by (subst (asm) startMotorLoop.simps) simp
    with False show ?thesis by auto
  next
    case True
    with "1.prems" obtain s1 where st: "startMotorUpdate c i s = Some s1"
      and rec: "startMotorLoop c n (i + 1) s1 = Some s'"
      by (subst (asm) startMotorLoop.simps) (simp split: option.splits)
    note ih = "1.IH" [OF True st rec]
    have same: "dmaMotors s1 j = dmaMotors s j" if "j \<noteq> i" for j
      using startMotorUpdate_other [OF st that] .
    have upt: "[i..<n] = i # [Suc i..<n]" using True by (simp add: upt_rec)
    have flt: "filter (\<lambda>j. invalidCapture c (dmaMotors s1 j)) [Suc i..<n]
                 = filter (\<lambda>j. invalidCapture c (dmaMotors s j)) [Suc i..<n]"
      by (rule filter_cong) (auto simp: same)
    have a: "\<forall>j. \<not> (i \<le> j \<and> j < n) \<longrightarrow> dmaMotors s' j = dmaMotors s j"
    proof (intro allI impI)
      fix j assume j: "\<not> (i \<le> j \<and> j < n)"
      with True have "j \<noteq> i" and "\<not> (i + 1 \<le> j \<and> j < n)" by auto
      with ih same show "dmaMotors s' j = dmaMotors s j" by simp
    qed
    have b: "\<forall>j. i \<le> j \<and> j < n \<longrightarrow>
        dshotTelemetryValue (dmaMotors s' j)
          = telemetryAfter c (dmaMotors s j)"
    proof (intro allI impI)
      fix j assume j: "i \<le> j \<and> j < n"
      show "dshotTelemetryValue (dmaMotors s' j)
          = telemetryAfter c (dmaMotors s j)"
      proof (cases "j = i")
        case True
        then have "\<not> (i + 1 \<le> j \<and> j < n)" by simp
        with ih have "dmaMotors s' j = dmaMotors s1 j" by blast
        with True startMotorUpdate_value [OF st] show ?thesis by simp
      next
        case False
        with j have "i + 1 \<le> j \<and> j < n" by simp
        with ih same [OF False] show ?thesis by simp
      qed
    qed
    have c: "dshotInvalidPacketCount s'
       = dshotInvalidPacketCount s
           + of_nat (length (filter (\<lambda>j. invalidCapture c (dmaMotors s j)) [i..<n]))"
      using ih startMotorUpdate_count [OF st] by (simp add: upt flt)
    from a b c show ?thesis by blast
  qed
qed

lemma startMotorLoop_total:
  "\<forall>j. i \<le> j \<and> j < n \<and> hasTelemetry (dmaMotors s j)
        \<longrightarrow> decodeTelemetry c (dmaMotors s j) \<noteq> None \<Longrightarrow>
     \<exists>s'. startMotorLoop c n i s = Some s'"
proof (induction c n i s rule: startMotorLoop.induct)
  case (1 c n i s)
  show ?case
  proof (cases "i < n")
    case False
    then show ?thesis by (subst startMotorLoop.simps) simp
  next
    case True
    with "1.prems" have "decodeTelemetry c (dmaMotors s i) \<noteq> None \<or> \<not> hasTelemetry (dmaMotors s i)"
      by auto
    with startMotorUpdate_total [of c s i] obtain s1 where st: "startMotorUpdate c i s = Some s1"
      by blast
    have "\<forall>j. i + 1 \<le> j \<and> j < n \<and> hasTelemetry (dmaMotors s1 j)
            \<longrightarrow> decodeTelemetry c (dmaMotors s1 j) \<noteq> None"
    proof (intro allI impI)
      fix j assume j: "i + 1 \<le> j \<and> j < n \<and> hasTelemetry (dmaMotors s1 j)"
      then have "j \<noteq> i" by simp
      from startMotorUpdate_other [OF st this] j "1.prems"
      show "decodeTelemetry c (dmaMotors s1 j) \<noteq> None" by simp
    qed
    from "1.IH" [OF True st this] obtain s' where "startMotorLoop c n (i + 1) s1 = Some s'" ..
    with True st show ?thesis by (subst startMotorLoop.simps) simp
  qed
qed

lemma telemetryAfter_range:
  assumes "DSHOT_TELEMETRY_INPUT_LEN c div 2 \<le> 16"
    and "PROSHOT_TELEMETRY_INPUT_LEN c div 2 \<le> 4"
  shows "telemetryAfter c m = dshotTelemetryValue m \<or> telemetryAfter c m < 0x1000"
  using decodeTelemetry_range [OF assms, of m]
  by (auto simp: telemetryAfter_def split: option.splits)

lemma telemetryAfter_invalid:
  "invalidCapture c m \<Longrightarrow> telemetryAfter c m = dshotTelemetryValue m"
  by (simp add: telemetryAfter_def invalidCapture_def)

lemma pwmStartDshotMotorUpdate_value:
  assumes "pwmStartDshotMotorUpdate c motorCount s = Some s'"
  shows "getDshotTelemetry s' i
           = (if useDshotTelemetry s \<and> i < motorCount then telemetryAfter c (dmaMotors s i)
              else getDshotTelemetry s i)"
proof (cases "useDshotTelemetry s")
  case False
  with assms show ?thesis by (simp add: pwmStartDshotMotorUpdate_def)
next
  case True
  with assms have l: "startMotorLoop c motorCount 0 s = Some s'"
    by (simp add: pwmStartDshotMotorUpdate_def)
  note e = startMotorLoop_effect [OF l]
  show ?thesis
  proof (cases "i < motorCount")
    case True
    with e have "dshotTelemetryValue (dmaMotors s' i) = telemetryAfter c (dmaMotors s i)" by simp
    with True \<open>useDshotTelemetry s\<close> show ?thesis by (simp add: getDshotTelemetry_def)
  next
    case False
    with e have "dmaMotors s' i = dmaMotors s i" by simp
    with False show ?thesis by (simp add: getDshotTelemetry_def)
  qed
qed

lemma pwmStartDshotMotorUpdate_count:
  assumes "pwmStartDshotMotorUpdate c motorCount s = Some s'" and "useDshotTelemetry s"
  shows "dshotInvalidPacketCount s'
           = dshotInvalidPacketCount s
               + of_nat (length (filter (\<lambda>j. invalidCapture c (dmaMotors s j)) [0..<motorCount]))"
  using assms startMotorLoop_effect [of c motorCount 0 s s']
  by (simp add: pwmStartDshotMotorUpdate_def)

lemma pwmStartDshotMotorUpdate_total:
  assumes "\<forall>j<motorCount. hasTelemetry (dmaMotors s j) \<longrightarrow> decodeTelemetry c (dmaMotors s j) \<noteq> None"
  shows "\<exists>s'. pwmStartDshotMotorUpdate c motorCount s = Some s'"
  using startMotorLoop_total [where i = 0 and n = motorCount and c = c and s = s] assms
  by (simp add: pwmStartDshotMotorUpdate_def)

text \<open>
  C10. With at most 16 DShot bits and 4 Proshot nibbles per capture, a value that either
  decoder returns and that is not the sentinel 0xffff is below 2^12; so after
  \<^verbatim>\<open>pwmStartDshotMotorUpdate\<close> the value that \<^verbatim>\<open>getDshotTelemetry\<close> reads for a motor is
  the one stored before or a value below 2^12, and is the sentinel only if it was before.
\<close>

theorem valid_telemetry_below_4096:
  assumes "DSHOT_TELEMETRY_INPUT_LEN c div 2 \<le> 16"
    and "PROSHOT_TELEMETRY_INPUT_LEN c div 2 \<le> 4"
  shows "(decodeDshotPacket c dbuf = Some r \<and> r \<noteq> 0xffff \<longrightarrow> r < 0x1000) \<and>
         (decodeProshotPacket c pbuf = Some r' \<and> r' \<noteq> 0xffff \<longrightarrow> r' < 0x1000) \<and>
         (pwmStartDshotMotorUpdate c motorCount s = Some s' \<longrightarrow>
            (getDshotTelemetry s' i = getDshotTelemetry s i \<or> getDshotTelemetry s' i < 0x1000) \<and>
            (getDshotTelemetry s i \<noteq> 0xffff \<longrightarrow> getDshotTelemetry s' i \<noteq> 0xffff))"
proof (intro conjI impI)
  assume "decodeDshotPacket c dbuf = Some r \<and> r \<noteq> 0xffff"
  then obtain v where v: "dshotValue c dbuf = Some v" and r: "r = checkedPayload v" "r \<noteq> 0xffff"
    by (auto simp: decodeDshotPacket_def)
  from checkedPayload_less [OF dshotValue_fits [OF v assms(1)]] r show "r < 0x1000" by simp
next
  assume "decodeProshotPacket c pbuf = Some r' \<and> r' \<noteq> 0xffff"
  then obtain v where v: "proshotValue c pbuf = Some v" and r: "r' = checkedPayload v" "r' \<noteq> 0xffff"
    by (auto simp: decodeProshotPacket_def)
  from checkedPayload_less [OF proshotValue_fits [OF v assms(2)]] r show "r' < 0x1000" by simp
next
  assume u: "pwmStartDshotMotorUpdate c motorCount s = Some s'"
  show stored: "getDshotTelemetry s' i = getDshotTelemetry s i \<or> getDshotTelemetry s' i < 0x1000"
    using pwmStartDshotMotorUpdate_value [OF u, of i] telemetryAfter_range [OF assms, of "dmaMotors s i"]
    by (auto simp: getDshotTelemetry_def)
  assume "getDshotTelemetry s i \<noteq> 0xffff"
  with stored show "getDshotTelemetry s' i \<noteq> 0xffff" by auto
qed

theorem valid_telemetry_below_4096_witness:
  "DSHOT_TELEMETRY_INPUT_LEN betaflightConsts div 2 \<le> 16 \<and>
   PROSHOT_TELEMETRY_INPUT_LEN betaflightConsts div 2 \<le> 4 \<and>
   decodeDshotPacket betaflightConsts goodCapture = Some 0xfff \<and> (0xfff :: uint16_t) < 0x1000 \<and>
   decodeProshotPacket betaflightConsts [0, 39, 0, 55, 100, 168, 50, 75] = Some 0x5af \<and>
   (0x5af :: uint16_t) < 0x1000 \<and>
   pwmStartDshotMotorUpdate betaflightConsts 1 (capturedState goodCapture 7) \<noteq> None \<and>
   getDshotTelemetry (capturedState goodCapture 7) 0 = 7 \<and>
   getDshotTelemetry (the (pwmStartDshotMotorUpdate betaflightConsts 1 (capturedState goodCapture 7))) 0
     = 0xfff"
proof -
  have h: "DSHOT_TELEMETRY_INPUT_LEN betaflightConsts div 2 \<le> 16"
    "PROSHOT_TELEMETRY_INPUT_LEN betaflightConsts div 2 \<le> 4"
    by (simp_all add: betaflightConsts_def)
  have d: "decodeDshotPacket betaflightConsts goodCapture = Some 0xfff" by code_simp
  have p: "decodeProshotPacket betaflightConsts [0, 39, 0, 55, 100, 168, 50, 75] = Some 0x5af"
    by code_simp
  have t: "decodeTelemetry betaflightConsts (capturedMotor goodCapture 7) = Some 0xfff"
    by (simp add: decodeTelemetry_def capturedMotor_def d)
  obtain s' where s': "pwmStartDshotMotorUpdate betaflightConsts 1 (capturedState goodCapture 7) = Some s'"
    using pwmStartDshotMotorUpdate_total [where motorCount = 1 and c = betaflightConsts
        and s = "capturedState goodCapture 7"] t
    by (auto simp: capturedState_def)
  have n: "getDshotTelemetry s' 0 = 0xfff"
    using pwmStartDshotMotorUpdate_value [OF s', of 0] t
    by (simp add: capturedState_def telemetryAfter_def capturedMotor_def)
  have o: "getDshotTelemetry (capturedState goodCapture 7) 0 = 7"
    by (simp add: getDshotTelemetry_def capturedState_def capturedMotor_def)
  from valid_telemetry_below_4096 [OF h, of goodCapture "0xfff" "[0, 39, 0, 55, 100, 168, 50, 75]"
      "0x5af" 1 "capturedState goodCapture 7" s' 0] h d p s' n o
  show ?thesis by simp
qed

section \<open>Properties of the notch filter banks\<close>

subsection \<open>The centre frequency\<close>

lemma notchFrequency_cases:
  "notchFrequency h f m =
     (if real (h + 1) * f < real m / 2 then min 1000 1000
      else if real (h + 1) * f < real m then min 1000 (real m)
      else min 1000 (real (h + 1) * f))"
  by (auto simp: notchFrequency_def deactivateFreq_def Let_def min_def)




subsection \<open>Writing cells\<close>

lemma setCell_apply:
  "setCell nt a m i cell a' m' i' = (if a' = a \<and> m' = m \<and> i' = i then cell else nt a' m' i')"
  by (simp add: setCell_def)

lemma clone_fold:
  "fold (\<lambda>axis nt. setCell nt axis m h (copyCoefficients template (nt axis m h))) [Suc 0..<n] nt a' m' h'
     = (if 1 \<le> a' \<and> a' < n \<and> m' = m \<and> h' = h then copyCoefficients template (nt a' m h)
        else nt a' m' h')"
proof (induction n)
  case 0
  show ?case by simp
next
  case (Suc n)
  show ?case
  proof (cases "1 \<le> n")
    case True
    then have "[Suc 0..<Suc n] = [Suc 0..<n] @ [n]" by simp
    with Suc True show ?thesis by (auto simp del: upt_Suc simp add: setCell_apply)
  next
    case False
    then have "n = 0" by simp
    then show ?thesis by auto
  qed
qed

lemma init_fold_harmonics:
  "fold (\<lambda>i nt. setCell nt axis m i (g i)) [0..<H] nt a' m' i'
     = (if a' = axis \<and> m' = m \<and> i' < H then g i' else nt a' m' i')"
  by (induction H) (auto simp: less_Suc_eq setCell_apply)

lemma init_fold_motors:
  "fold (\<lambda>m. fold (\<lambda>i nt. setCell nt axis m i (g i)) [0..<H]) [0..<M] nt a' m' i'
     = (if a' = axis \<and> m' < M \<and> i' < H then g i' else nt a' m' i')"
  by (induction M) (auto simp: init_fold_harmonics less_Suc_eq)

lemma init_fold_axes:
  "fold (\<lambda>axis. fold (\<lambda>m. fold (\<lambda>i nt. setCell nt axis m i (g i)) [0..<H]) [0..<M]) [0..<X] nt a' m' i'
     = (if a' < X \<and> m' < M \<and> i' < H then g i' else nt a' m' i')"
  by (induction X) (auto simp: init_fold_motors less_Suc_eq)

lemma rpmNotchFilterInit_fields [simp]:
  "harmonics (rpmNotchFilterInit lib env f h mn r lt) = h mod 256"
  "minHz (rpmNotchFilterInit lib env f h mn r lt) = mn mod 256"
  "q (rpmNotchFilterInit lib env f h mn r lt) = real r / 100"
  "loopTime (rpmNotchFilterInit lib env f h mn r lt) = lt"
  by (simp_all add: rpmNotchFilterInit_def Let_def)

lemma rpmNotchFilterInit_notch:
  "notch (rpmNotchFilterInit lib env f h mn r lt) a m i
     = (if a < XYZ_AXIS_COUNT env \<and> m < getMotorCount env \<and> i < h
        then biquadFilterInit lib (initFrequency mn i) lt (real r / 100)
        else notch f a m i)"
  by (simp add: rpmNotchFilterInit_def Let_def init_fold_axes)

subsection \<open>What the recompute step changes\<close>

lemma recomputeCell_frame [simp]:
  "rpmFilters (recomputeCell lib env s) = rpmFilters s"
  "erpmToHz (recomputeCell lib env s) = erpmToHz s"
  "filteredMotorErpm (recomputeCell lib env s) = filteredMotorErpm s"
  "numberFilters (recomputeCell lib env s) = numberFilters s"
  "numberRpmNotchFilters (recomputeCell lib env s) = numberRpmNotchFilters s"
  "filterUpdatesPerIteration (recomputeCell lib env s) = filterUpdatesPerIteration s"
  "pidLooptime (recomputeCell lib env s) = pidLooptime s"
  "gyroFilter (recomputeCell lib env s) = gyroFilter s"
  "dtermFilter (recomputeCell lib env s) = dtermFilter s"
  "motorFrequency (recomputeCell lib env s) = motorFrequency s"
  "motor (recomputeCell lib env s) = motor s"
  "harmonic (recomputeCell lib env s) = harmonic s"
  "filter_idx (recomputeCell lib env s) = filter_idx s"
  "currentFilter (recomputeCell lib env s) = currentFilter s"
  by (simp_all add: recomputeCell_def Let_def)

lemma recomputeCell_bank [simp]:
  "harmonics (filters (recomputeCell lib env s) n) = harmonics (filters s n)"
  "minHz (filters (recomputeCell lib env s) n) = minHz (filters s n)"
  "q (filters (recomputeCell lib env s) n) = q (filters s n)"
  "loopTime (filters (recomputeCell lib env s) n) = loopTime (filters s n)"
  by (simp_all add: recomputeCell_def Let_def)

lemma recomputeCell_notch:
  "notch (filters (recomputeCell lib env s) n) a m h
     = (if n = currentFilter s \<and> m = motor s \<and> h = harmonic s \<and> a < max 1 (XYZ_AXIS_COUNT env)
        then (let cf = filters s (currentFilter s);
                  template = biquadFilterUpdate lib (notch cf 0 (motor s) (harmonic s))
                      (notchFrequency (harmonic s) (motorFrequency s (motor s)) (minHz cf))
                      (loopTime cf) (q cf)
              in if a = 0 then template else copyCoefficients template (notch cf a (motor s) (harmonic s)))
        else notch (filters s n) a m h)"
  by (auto simp: recomputeCell_def Let_def clone_fold setCell_apply)

lemma coefficients_copy [simp]:
  "coefficients (copyCoefficients template clone) = coefficients template"
  by (simp add: coefficients_def copyCoefficients_def)

lemma advanceCursor_frame [simp]:
  "rpmFilters (advanceCursor env s) = rpmFilters s"
  "erpmToHz (advanceCursor env s) = erpmToHz s"
  "filteredMotorErpm (advanceCursor env s) = filteredMotorErpm s"
  "numberFilters (advanceCursor env s) = numberFilters s"
  "numberRpmNotchFilters (advanceCursor env s) = numberRpmNotchFilters s"
  "filterUpdatesPerIteration (advanceCursor env s) = filterUpdatesPerIteration s"
  "pidLooptime (advanceCursor env s) = pidLooptime s"
  "gyroFilter (advanceCursor env s) = gyroFilter s"
  "dtermFilter (advanceCursor env s) = dtermFilter s"
  "filters (advanceCursor env s) = filters s"
  by (simp_all add: advanceCursor_def Let_def)



subsection \<open>What each part of \<^verbatim>\<open>rpmFilterInit\<close> changes\<close>

lemma takeBank_fst [simp]: "fst (takeBank lib env h mn r lt s) = numberRpmNotchFilters s"
  by (simp add: takeBank_def Let_def)

lemma takeBank_frame [simp]:
  "rpmFilters (snd (takeBank lib env h mn r lt s)) = rpmFilters s"
  "erpmToHz (snd (takeBank lib env h mn r lt s)) = erpmToHz s"
  "filteredMotorErpm (snd (takeBank lib env h mn r lt s)) = filteredMotorErpm s"
  "numberFilters (snd (takeBank lib env h mn r lt s)) = numberFilters s"
  "filterUpdatesPerIteration (snd (takeBank lib env h mn r lt s)) = filterUpdatesPerIteration s"
  "pidLooptime (snd (takeBank lib env h mn r lt s)) = pidLooptime s"
  "gyroFilter (snd (takeBank lib env h mn r lt s)) = gyroFilter s"
  "dtermFilter (snd (takeBank lib env h mn r lt s)) = dtermFilter s"
  "motorFrequency (snd (takeBank lib env h mn r lt s)) = motorFrequency s"
  "motor (snd (takeBank lib env h mn r lt s)) = motor s"
  "harmonic (snd (takeBank lib env h mn r lt s)) = harmonic s"
  "filter_idx (snd (takeBank lib env h mn r lt s)) = filter_idx s"
  "currentFilter (snd (takeBank lib env h mn r lt s)) = currentFilter s"
  by (simp_all add: takeBank_def Let_def)

lemma takeBank_changes [simp]:
  "numberRpmNotchFilters (snd (takeBank lib env h mn r lt s)) = (numberRpmNotchFilters s + 1) mod 256"
  "filters (snd (takeBank lib env h mn r lt s)) n
     = (if n = numberRpmNotchFilters s
        then rpmNotchFilterInit lib env (filters s n) h mn r lt else filters s n)"
  by (simp_all add: takeBank_def Let_def)

lemma initGyroBank_frame [simp]:
  "rpmFilters (initGyroBank lib env config s) = rpmFilters s"
  "erpmToHz (initGyroBank lib env config s) = erpmToHz s"
  "filteredMotorErpm (initGyroBank lib env config s) = filteredMotorErpm s"
  "numberFilters (initGyroBank lib env config s) = numberFilters s"
  "filterUpdatesPerIteration (initGyroBank lib env config s) = filterUpdatesPerIteration s"
  "pidLooptime (initGyroBank lib env config s) = pidLooptime s"
  "dtermFilter (initGyroBank lib env config s) = dtermFilter s"
  "motorFrequency (initGyroBank lib env config s) = motorFrequency s"
  "motor (initGyroBank lib env config s) = motor s"
  "harmonic (initGyroBank lib env config s) = harmonic s"
  "filter_idx (initGyroBank lib env config s) = filter_idx s"
  "currentFilter (initGyroBank lib env config s) = currentFilter s"
  by (simp_all add: initGyroBank_def Let_def)

lemma initGyroBank_changes [simp]:
  "numberRpmNotchFilters (initGyroBank lib env config s)
     = (if gyro_rpm_notch_harmonics config \<noteq> 0 then (numberRpmNotchFilters s + 1) mod 256
        else numberRpmNotchFilters s)"
  "gyroFilter (initGyroBank lib env config s)
     = (if gyro_rpm_notch_harmonics config \<noteq> 0 then Some (numberRpmNotchFilters s)
        else gyroFilter s)"
  "filters (initGyroBank lib env config s) n
     = (if gyro_rpm_notch_harmonics config \<noteq> 0 \<and> n = numberRpmNotchFilters s
        then rpmNotchFilterInit lib env (filters s n) (gyro_rpm_notch_harmonics config)
               (gyro_rpm_notch_min config) (gyro_rpm_notch_q config) (real (targetLooptime env))
        else filters s n)"
  by (simp_all add: initGyroBank_def Let_def)

lemma initDtermBank_frame [simp]:
  "rpmFilters (initDtermBank lib env config s) = rpmFilters s"
  "erpmToHz (initDtermBank lib env config s) = erpmToHz s"
  "filteredMotorErpm (initDtermBank lib env config s) = filteredMotorErpm s"
  "numberFilters (initDtermBank lib env config s) = numberFilters s"
  "filterUpdatesPerIteration (initDtermBank lib env config s) = filterUpdatesPerIteration s"
  "pidLooptime (initDtermBank lib env config s) = pidLooptime s"
  "gyroFilter (initDtermBank lib env config s) = gyroFilter s"
  "motorFrequency (initDtermBank lib env config s) = motorFrequency s"
  "motor (initDtermBank lib env config s) = motor s"
  "harmonic (initDtermBank lib env config s) = harmonic s"
  "filter_idx (initDtermBank lib env config s) = filter_idx s"
  "currentFilter (initDtermBank lib env config s) = currentFilter s"
  by (simp_all add: initDtermBank_def Let_def)

lemma initDtermBank_changes [simp]:
  "numberRpmNotchFilters (initDtermBank lib env config s)
     = (if dterm_rpm_notch_harmonics config \<noteq> 0 then (numberRpmNotchFilters s + 1) mod 256
        else numberRpmNotchFilters s)"
  "dtermFilter (initDtermBank lib env config s)
     = (if dterm_rpm_notch_harmonics config \<noteq> 0 then Some (numberRpmNotchFilters s)
        else dtermFilter s)"
  "filters (initDtermBank lib env config s) n
     = (if dterm_rpm_notch_harmonics config \<noteq> 0 \<and> n = numberRpmNotchFilters s
        then rpmNotchFilterInit lib env (filters s n) (dterm_rpm_notch_harmonics config)
               (dterm_rpm_notch_min config) (dterm_rpm_notch_q config) (pidLooptime s)
        else filters s n)"
  by (simp_all add: initDtermBank_def Let_def)

lemma initSmoothing_frame [simp]:
  "filteredMotorErpm (initSmoothing lib env s) = filteredMotorErpm s"
  "numberFilters (initSmoothing lib env s) = numberFilters s"
  "numberRpmNotchFilters (initSmoothing lib env s) = numberRpmNotchFilters s"
  "filterUpdatesPerIteration (initSmoothing lib env s) = filterUpdatesPerIteration s"
  "pidLooptime (initSmoothing lib env s) = pidLooptime s"
  "filters (initSmoothing lib env s) = filters s"
  "gyroFilter (initSmoothing lib env s) = gyroFilter s"
  "dtermFilter (initSmoothing lib env s) = dtermFilter s"
  "motorFrequency (initSmoothing lib env s) = motorFrequency s"
  "motor (initSmoothing lib env s) = motor s"
  "harmonic (initSmoothing lib env s) = harmonic s"
  "filter_idx (initSmoothing lib env s) = filter_idx s"
  "currentFilter (initSmoothing lib env s) = currentFilter s"
  by (simp_all add: initSmoothing_def)

lemma pt1_init_fold:
  "fold (\<lambda>i rf. rf(i := c)) [0..<n] rf j = (if j < n then c else rf j)"
  by (induction n) auto

lemma initSmoothing_changes [simp]:
  "rpmFilters (initSmoothing lib env s) i
     = (if i < getMotorCount env
        then pt1FilterInit lib (pt1FilterGain lib RPM_MOTOR_FILTER_CUTOFF (pidLooptime s))
        else rpmFilters s i)"
  "erpmToHz (initSmoothing lib env s)
     = ERPM_PER_LSB / SECONDS_PER_MINUTE / (real (motorPoleCount env) / 2)"
  by (simp_all add: initSmoothing_def pt1_init_fold)

lemma initBudget_frame [simp]:
  "rpmFilters (initBudget env s) = rpmFilters s"
  "erpmToHz (initBudget env s) = erpmToHz s"
  "filteredMotorErpm (initBudget env s) = filteredMotorErpm s"
  "numberRpmNotchFilters (initBudget env s) = numberRpmNotchFilters s"
  "pidLooptime (initBudget env s) = pidLooptime s"
  "filters (initBudget env s) = filters s"
  "gyroFilter (initBudget env s) = gyroFilter s"
  "dtermFilter (initBudget env s) = dtermFilter s"
  "motorFrequency (initBudget env s) = motorFrequency s"
  "motor (initBudget env s) = motor s"
  "harmonic (initBudget env s) = harmonic s"
  "filter_idx (initBudget env s) = filter_idx s"
  "currentFilter (initBudget env s) = currentFilter s"
  by (simp_all add: initBudget_def Let_def)

lemma initBudget_changes [simp]:
  "numberFilters (initBudget env s)
     = (getMotorCount env * (harmonics (filters s 0) + harmonics (filters s 1))) mod 256"
  "filterUpdatesPerIteration (initBudget env s)
     = nat (rintf (real ((getMotorCount env * (harmonics (filters s 0) + harmonics (filters s 1))) mod 256)
                     / (MIN_UPDATE_T / (pidLooptime s * 0.000001)) + 0.49)) mod 256"
  by (simp_all add: initBudget_def Let_def)

lemma rpmFilterInit_off:
  "\<not> dev_useDshotTelemetry env \<Longrightarrow>
     rpmFilterInit lib env config s0
       = s0\<lparr>numberRpmNotchFilters := 0, gyroFilter := None, dtermFilter := None\<rparr>"
  by (simp add: rpmFilterInit_def)

lemma rpmFilterInit_on:
  "dev_useDshotTelemetry env \<Longrightarrow>
     rpmFilterInit lib env config s0
       = initBudget env (initSmoothing lib env (initDtermBank lib env config
           (initGyroBank lib env config
              (s0\<lparr>numberRpmNotchFilters := 0,
                   pidLooptime := real ((targetLooptime env * pid_process_denom env) mod 2 ^ 32)\<rparr>))))"
  by (simp add: rpmFilterInit_def Let_def)

lemma rpmFilterInit_cursor [simp]:
  "motor (rpmFilterInit lib env config s0) = motor s0"
  "harmonic (rpmFilterInit lib env config s0) = harmonic s0"
  "filter_idx (rpmFilterInit lib env config s0) = filter_idx s0"
  "currentFilter (rpmFilterInit lib env config s0) = currentFilter s0"
  "motorFrequency (rpmFilterInit lib env config s0) = motorFrequency s0"
  "filteredMotorErpm (rpmFilterInit lib env config s0) = filteredMotorErpm s0"
  by (cases "dev_useDshotTelemetry env"; simp add: rpmFilterInit_off rpmFilterInit_on)+

lemma rpmFilterInit_pointers:
  "gyroFilter (rpmFilterInit lib env config s0)
     = (if \<not> dev_useDshotTelemetry env then None
        else if gyro_rpm_notch_harmonics config \<noteq> 0 then Some 0 else gyroFilter s0)"
  "dtermFilter (rpmFilterInit lib env config s0)
     = (if \<not> dev_useDshotTelemetry env then None
        else if dterm_rpm_notch_harmonics config \<noteq> 0
        then Some (if gyro_rpm_notch_harmonics config \<noteq> 0 then 1 else 0) else dtermFilter s0)"
  by (cases "dev_useDshotTelemetry env"; simp add: rpmFilterInit_off rpmFilterInit_on)+

lemma rpmFilterInit_count:
  "dev_useDshotTelemetry env \<Longrightarrow>
     numberRpmNotchFilters (rpmFilterInit lib env config s0)
       = (if gyro_rpm_notch_harmonics config \<noteq> 0 then 1 else 0)
           + (if dterm_rpm_notch_harmonics config \<noteq> 0 then 1 else 0)"
  by (simp add: rpmFilterInit_on)

lemma rpmFilterInit_banks:
  "dev_useDshotTelemetry env \<Longrightarrow>
     filters (rpmFilterInit lib env config s0) 0
       = (if gyro_rpm_notch_harmonics config \<noteq> 0
          then rpmNotchFilterInit lib env (filters s0 0) (gyro_rpm_notch_harmonics config)
                 (gyro_rpm_notch_min config) (gyro_rpm_notch_q config) (real (targetLooptime env))
          else if dterm_rpm_notch_harmonics config \<noteq> 0
          then rpmNotchFilterInit lib env (filters s0 0) (dterm_rpm_notch_harmonics config)
                 (dterm_rpm_notch_min config) (dterm_rpm_notch_q config)
                 (real ((targetLooptime env * pid_process_denom env) mod 2 ^ 32))
          else filters s0 0)"
  "dev_useDshotTelemetry env \<Longrightarrow>
     filters (rpmFilterInit lib env config s0) (Suc 0)
       = (if gyro_rpm_notch_harmonics config \<noteq> 0 \<and> dterm_rpm_notch_harmonics config \<noteq> 0
          then rpmNotchFilterInit lib env (filters s0 1) (dterm_rpm_notch_harmonics config)
                 (dterm_rpm_notch_min config) (dterm_rpm_notch_q config)
                 (real ((targetLooptime env * pid_process_denom env) mod 2 ^ 32))
          else filters s0 (Suc 0))"
  by (simp_all add: rpmFilterInit_on)

subsection \<open>What advancing the cursor changes\<close>

lemma advanceCursor_harmonic:
  "harmonic (advanceCursor env s)
     = (if (harmonic s + 1) mod 256 = harmonics (filters s (currentFilter s)) then 0
        else (harmonic s + 1) mod 256)"
  by (simp add: advanceCursor_def Let_def)

lemma advanceCursor_filter_idx:
  "filter_idx (advanceCursor env s)
     = (if (harmonic s + 1) mod 256 = harmonics (filters s (currentFilter s))
        then (if (filter_idx s + 1) mod 256 = numberRpmNotchFilters s then 0
              else (filter_idx s + 1) mod 256)
        else filter_idx s)"
  by (simp add: advanceCursor_def Let_def)

lemma advanceCursor_currentFilter:
  "currentFilter (advanceCursor env s)
     = (if (harmonic s + 1) mod 256 = harmonics (filters s (currentFilter s))
        then (if (filter_idx s + 1) mod 256 = numberRpmNotchFilters s then 0
              else (filter_idx s + 1) mod 256)
        else currentFilter s)"
  by (simp add: advanceCursor_def Let_def)

lemma advanceCursor_motor:
  "motor (advanceCursor env s)
     = (if (harmonic s + 1) mod 256 = harmonics (filters s (currentFilter s))
           \<and> (filter_idx s + 1) mod 256 = numberRpmNotchFilters s
        then (if (motor s + 1) mod 256 = getMotorCount env then 0 else (motor s + 1) mod 256)
        else motor s)"
  by (simp add: advanceCursor_def Let_def)

lemma advanceCursor_motorFrequency:
  "motorFrequency (advanceCursor env s)
     = (if (harmonic s + 1) mod 256 = harmonics (filters s (currentFilter s))
           \<and> (filter_idx s + 1) mod 256 = numberRpmNotchFilters s
        then (motorFrequency s)(motor (advanceCursor env s) :=
               erpmToHz s * filteredMotorErpm s (motor (advanceCursor env s)))
        else motorFrequency s)"
  by (simp add: advanceCursor_def Let_def)

lemma updateStep_frame [simp]:
  "rpmFilters (updateStep lib env s) = rpmFilters s"
  "erpmToHz (updateStep lib env s) = erpmToHz s"
  "filteredMotorErpm (updateStep lib env s) = filteredMotorErpm s"
  "numberFilters (updateStep lib env s) = numberFilters s"
  "numberRpmNotchFilters (updateStep lib env s) = numberRpmNotchFilters s"
  "filterUpdatesPerIteration (updateStep lib env s) = filterUpdatesPerIteration s"
  "pidLooptime (updateStep lib env s) = pidLooptime s"
  "gyroFilter (updateStep lib env s) = gyroFilter s"
  "dtermFilter (updateStep lib env s) = dtermFilter s"
  "filters (updateStep lib env s) = filters (recomputeCell lib env s)"
  by (simp_all add: updateStep_def)

lemma updateStep_cursor:
  "harmonic (updateStep lib env s)
     = (if (harmonic s + 1) mod 256 = harmonics (filters s (currentFilter s)) then 0
        else (harmonic s + 1) mod 256)"
  "filter_idx (updateStep lib env s)
     = (if (harmonic s + 1) mod 256 = harmonics (filters s (currentFilter s))
        then (if (filter_idx s + 1) mod 256 = numberRpmNotchFilters s then 0
              else (filter_idx s + 1) mod 256)
        else filter_idx s)"
  "currentFilter (updateStep lib env s)
     = (if (harmonic s + 1) mod 256 = harmonics (filters s (currentFilter s))
        then (if (filter_idx s + 1) mod 256 = numberRpmNotchFilters s then 0
              else (filter_idx s + 1) mod 256)
        else currentFilter s)"
  "motor (updateStep lib env s)
     = (if (harmonic s + 1) mod 256 = harmonics (filters s (currentFilter s))
           \<and> (filter_idx s + 1) mod 256 = numberRpmNotchFilters s
        then (if (motor s + 1) mod 256 = getMotorCount env then 0 else (motor s + 1) mod 256)
        else motor s)"
  by (simp_all add: updateStep_def advanceCursor_harmonic advanceCursor_filter_idx
      advanceCursor_currentFilter advanceCursor_motor)

lemma updateStep_motorFrequency:
  "motorFrequency (updateStep lib env s)
     = (if (harmonic s + 1) mod 256 = harmonics (filters s (currentFilter s))
           \<and> (filter_idx s + 1) mod 256 = numberRpmNotchFilters s
        then (motorFrequency s)(motor (updateStep lib env s) :=
               erpmToHz s * filteredMotorErpm s (motor (updateStep lib env s)))
        else motorFrequency s)"
  by (simp add: updateStep_def advanceCursor_motorFrequency)

lemma updateStep_bank [simp]:
  "harmonics (filters (updateStep lib env s) n) = harmonics (filters s n)"
  "minHz (filters (updateStep lib env s) n) = minHz (filters s n)"
  "q (filters (updateStep lib env s) n) = q (filters s n)"
  "loopTime (filters (updateStep lib env s) n) = loopTime (filters s n)"
  by simp_all

lemma updateLoop_frame [simp]:
  "rpmFilters (updateLoop lib env n s) = rpmFilters s"
  "erpmToHz (updateLoop lib env n s) = erpmToHz s"
  "filteredMotorErpm (updateLoop lib env n s) = filteredMotorErpm s"
  "numberFilters (updateLoop lib env n s) = numberFilters s"
  "numberRpmNotchFilters (updateLoop lib env n s) = numberRpmNotchFilters s"
  "filterUpdatesPerIteration (updateLoop lib env n s) = filterUpdatesPerIteration s"
  "pidLooptime (updateLoop lib env n s) = pidLooptime s"
  "gyroFilter (updateLoop lib env n s) = gyroFilter s"
  "dtermFilter (updateLoop lib env n s) = dtermFilter s"
  by (induction n arbitrary: s; simp)+

lemma updateLoop_bank [simp]:
  "harmonics (filters (updateLoop lib env n s) j) = harmonics (filters s j)"
  "minHz (filters (updateLoop lib env n s) j) = minHz (filters s j)"
  "q (filters (updateLoop lib env n s) j) = q (filters s j)"
  "loopTime (filters (updateLoop lib env n s) j) = loopTime (filters s j)"
  by (induction n arbitrary: s; simp)+

subsection \<open>Smoothing the telemetry\<close>

lemma smoothErpm_frame [simp]:
  "erpmToHz (smoothErpm lib tel m s) = erpmToHz s"
  "numberFilters (smoothErpm lib tel m s) = numberFilters s"
  "numberRpmNotchFilters (smoothErpm lib tel m s) = numberRpmNotchFilters s"
  "filterUpdatesPerIteration (smoothErpm lib tel m s) = filterUpdatesPerIteration s"
  "pidLooptime (smoothErpm lib tel m s) = pidLooptime s"
  "filters (smoothErpm lib tel m s) = filters s"
  "gyroFilter (smoothErpm lib tel m s) = gyroFilter s"
  "dtermFilter (smoothErpm lib tel m s) = dtermFilter s"
  "motorFrequency (smoothErpm lib tel m s) = motorFrequency s"
  "motor (smoothErpm lib tel m s) = motor s"
  "harmonic (smoothErpm lib tel m s) = harmonic s"
  "filter_idx (smoothErpm lib tel m s) = filter_idx s"
  "currentFilter (smoothErpm lib tel m s) = currentFilter s"
  by (simp_all add: smoothErpm_def Let_def)

lemma smoothErpm_changes:
  "rpmFilters (smoothErpm lib tel m s) i
     = (if i = m then fst (pt1FilterApply lib (rpmFilters s m) (real (unat (tel m))))
        else rpmFilters s i)"
  "filteredMotorErpm (smoothErpm lib tel m s) i
     = (if i = m then snd (pt1FilterApply lib (rpmFilters s m) (real (unat (tel m))))
        else filteredMotorErpm s i)"
  by (simp_all add: smoothErpm_def Let_def)

lemma smooth_fold_frame [simp]:
  "erpmToHz (fold (smoothErpm lib tel) [0..<n] s) = erpmToHz s"
  "numberFilters (fold (smoothErpm lib tel) [0..<n] s) = numberFilters s"
  "numberRpmNotchFilters (fold (smoothErpm lib tel) [0..<n] s) = numberRpmNotchFilters s"
  "filterUpdatesPerIteration (fold (smoothErpm lib tel) [0..<n] s) = filterUpdatesPerIteration s"
  "pidLooptime (fold (smoothErpm lib tel) [0..<n] s) = pidLooptime s"
  "filters (fold (smoothErpm lib tel) [0..<n] s) = filters s"
  "gyroFilter (fold (smoothErpm lib tel) [0..<n] s) = gyroFilter s"
  "dtermFilter (fold (smoothErpm lib tel) [0..<n] s) = dtermFilter s"
  "motorFrequency (fold (smoothErpm lib tel) [0..<n] s) = motorFrequency s"
  "motor (fold (smoothErpm lib tel) [0..<n] s) = motor s"
  "harmonic (fold (smoothErpm lib tel) [0..<n] s) = harmonic s"
  "filter_idx (fold (smoothErpm lib tel) [0..<n] s) = filter_idx s"
  "currentFilter (fold (smoothErpm lib tel) [0..<n] s) = currentFilter s"
  by (induction n; simp)+

lemma smooth_fold_changes:
  "rpmFilters (fold (smoothErpm lib tel) [0..<n] s) i
     = (if i < n then fst (pt1FilterApply lib (rpmFilters s i) (real (unat (tel i))))
        else rpmFilters s i) \<and>
   filteredMotorErpm (fold (smoothErpm lib tel) [0..<n] s) i
     = (if i < n then snd (pt1FilterApply lib (rpmFilters s i) (real (unat (tel i))))
        else filteredMotorErpm s i)"
  by (induction n) (auto simp: smoothErpm_changes)

lemma rpmFilterUpdate_filteredMotorErpm:
  assumes "gyroFilter s \<noteq> None \<or> dtermFilter s \<noteq> None"
  shows "filteredMotorErpm (rpmFilterUpdate lib env tel s) i
           = (if i < getMotorCount env
              then snd (pt1FilterApply lib (rpmFilters s i) (real (unat (tel i))))
              else filteredMotorErpm s i)"
  using assms smooth_fold_changes [of lib tel "getMotorCount env" s i]
  by (auto simp: rpmFilterUpdate_def Let_def)

subsection \<open>The concrete quadcopter state\<close>

lemma quadEnv_fields [simp]:
  "getMotorCount quadEnv = 4" "dev_useDshotTelemetry quadEnv" "motorPoleCount quadEnv = 14"
  "targetLooptime quadEnv = 125" "pid_process_denom quadEnv = 1" "XYZ_AXIS_COUNT quadEnv = 3"
  by (simp_all add: quadEnv_def)

lemma default_config_fields [simp]:
  "gyro_rpm_notch_harmonics pgResetFn_rpmFilterConfig = 3"
  "gyro_rpm_notch_min pgResetFn_rpmFilterConfig = 100"
  "gyro_rpm_notch_q pgResetFn_rpmFilterConfig = 500"
  "dterm_rpm_notch_harmonics pgResetFn_rpmFilterConfig = 1"
  "dterm_rpm_notch_min pgResetFn_rpmFilterConfig = 100"
  "dterm_rpm_notch_q pgResetFn_rpmFilterConfig = 500"
  by (simp_all add: pgResetFn_rpmFilterConfig_def)

lemma startupState_fields [simp]:
  "gyroFilter startupState = None" "dtermFilter startupState = None"
  "motor startupState = 0" "harmonic startupState = 0" "filter_idx startupState = 0"
  "currentFilter startupState = 0" "motorFrequency startupState = (\<lambda>_. 0)"
  "filteredMotorErpm startupState = (\<lambda>_. 0)" "harmonics (filters startupState n) = 0"
  "notch (filters startupState n) = (\<lambda>_ _ _. zeroBiquad)"
  "rpmFilters startupState = (\<lambda>_. \<lparr> pt1_state = 0, pt1_k = 0 \<rparr>)"
  by (simp_all add: startupState_def)

lemma quadState_cursor [simp]:
  "motor quadState = 0" "harmonic quadState = 0" "filter_idx quadState = 0"
  "currentFilter quadState = 0" "motorFrequency quadState = (\<lambda>_. 0)"
  "filteredMotorErpm quadState = (\<lambda>_. 0)"
  by (simp_all add: quadState_def)

lemma quadState_banks [simp]:
  "numberRpmNotchFilters quadState = 2" "gyroFilter quadState = Some 0"
  "dtermFilter quadState = Some 1"
  "harmonics (filters quadState 0) = 3" "harmonics (filters quadState (Suc 0)) = 1"
  "minHz (filters quadState 0) = 100" "minHz (filters quadState (Suc 0)) = 100"
  "q (filters quadState 0) = 5" "q (filters quadState (Suc 0)) = 5"
  "loopTime (filters quadState 0) = 125" "loopTime (filters quadState (Suc 0)) = 125"
  by (simp_all add: quadState_def rpmFilterInit_count rpmFilterInit_pointers rpmFilterInit_banks)

lemma quadState_notch:
  "notch (filters quadState 0) a m i
     = (if a < 3 \<and> m < 4 \<and> i < 3
        then \<lparr> b0 = initFrequency 100 i, b1 = 125, b2 = 5, a1 = 0, a2 = 0, delayLine = [] \<rparr>
        else zeroBiquad)"
  by (simp add: quadState_def rpmFilterInit_banks rpmNotchFilterInit_notch standInLib_def)

lemma quadState_smoothing [simp]:
  "erpmToHz quadState = 5 / 21"
  "rpmFilters quadState i
     = (if i < 4 then \<lparr> pt1_state = 0, pt1_k = 1 / 2 \<rparr> else \<lparr> pt1_state = 0, pt1_k = 0 \<rparr>)"
  by (simp_all add: quadState_def rpmFilterInit_on standInLib_def ERPM_PER_LSB_def
      SECONDS_PER_MINUTE_def)

lemma quadState_budget [simp]:
  "numberFilters quadState = 16" "filterUpdatesPerIteration quadState = 2"
  by (simp_all add: quadState_def rpmFilterInit_on MIN_UPDATE_T_def rintf_def Let_def)

section \<open>The claims about the notch filter banks\<close>




text \<open>
  C5. After a recompute step the coefficients of the recomputed cell are, on every axis,
  those that \<^verbatim>\<open>biquadFilterUpdate\<close> computed for the cell of axis 0. After the initialisation
  of a bank every cell of a motor and harmonic is, on every axis, the cell that
  \<^verbatim>\<open>biquadFilterInit\<close> makes from the same arguments.
\<close>

theorem axis_clones_share_coefficients:
  "(\<forall>axis < XYZ_AXIS_COUNT env.
      coefficients (notch (filters (updateStep lib env s) (currentFilter s)) axis (motor s) (harmonic s))
        = coefficients
            (biquadFilterUpdate lib (notch (filters s (currentFilter s)) 0 (motor s) (harmonic s))
               (notchFrequency (harmonic s) (motorFrequency s (motor s))
                  (minHz (filters s (currentFilter s))))
               (loopTime (filters s (currentFilter s))) (q (filters s (currentFilter s)))) \<and>
      coefficients (notch (filters (updateStep lib env s) (currentFilter s)) axis (motor s) (harmonic s))
        = coefficients (notch (filters (updateStep lib env s) (currentFilter s)) 0 (motor s) (harmonic s))) \<and>
   (\<forall>axis < XYZ_AXIS_COUNT env. \<forall>m < getMotorCount env. \<forall>i < h.
      notch (rpmNotchFilterInit lib env f h mn r lt) axis m i
        = biquadFilterInit lib (initFrequency mn i) lt (real r / 100) \<and>
      notch (rpmNotchFilterInit lib env f h mn r lt) axis m i
        = notch (rpmNotchFilterInit lib env f h mn r lt) 0 m i)"
  by (auto simp: recomputeCell_notch rpmNotchFilterInit_notch Let_def)

theorem axis_clones_share_coefficients_witness:
  "(2::nat) < XYZ_AXIS_COUNT quadEnv \<and> (3::nat) < getMotorCount quadEnv \<and> (1::nat) < 3 \<and>
   coefficients (notch (filters (updateStep standInLib quadEnv quadState) 0) 2 0 0)
     = (1000, 125, 5, 0, 0) \<and>
   coefficients (notch (filters (updateStep standInLib quadEnv quadState) 0) 0 0 0)
     = (1000, 125, 5, 0, 0) \<and>
   notch (rpmNotchFilterInit standInLib quadEnv (filters startupState 0) 3 100 500 125) 2 3 1
     = \<lparr> b0 = 100, b1 = 125, b2 = 5, a1 = 0, a2 = 0, delayLine = [] \<rparr> \<and>
   notch (rpmNotchFilterInit standInLib quadEnv (filters startupState 0) 3 100 500 125) 0 3 1
     = \<lparr> b0 = 100, b1 = 125, b2 = 5, a1 = 0, a2 = 0, delayLine = [] \<rparr>"
proof -
  have u: "coefficients (biquadFilterUpdate standInLib (notch (filters quadState 0) 0 0 0)
             (notchFrequency 0 0 100) 125 5) = (1000, 125, 5, 0, 0)"
    by (simp add: standInLib_def coefficients_def quadState_notch notchFrequency_cases)
  have i: "biquadFilterInit standInLib (initFrequency 100 1) 125 (real 500 / 100)
             = \<lparr> b0 = 100, b1 = 125, b2 = 5, a1 = 0, a2 = 0, delayLine = [] \<rparr>"
    by (simp add: standInLib_def initFrequency_def)
  from axis_clones_share_coefficients [of quadEnv standInLib quadState 3 "filters startupState 0"
      100 500 125] u i
  show ?thesis by simp
qed



subsection \<open>Running calls on concrete states\<close>

lemma rpmFilterUpdate_active:
  "gyroFilter s \<noteq> None \<or> dtermFilter s \<noteq> None \<Longrightarrow>
     rpmFilterUpdate lib env tel s
       = updateLoop lib env (filterUpdatesPerIteration s)
           (fold (smoothErpm lib tel) [0..<getMotorCount env] s)"
  by (auto simp: rpmFilterUpdate_def Let_def)

lemma standInLib_pt1 [simp]:
  "pt1FilterApply standInLib = pt1FilterApply_spec"
  by (simp add: standInLib_def)

lemma updateLoop_2: "updateLoop lib env 2 s = updateStep lib env (updateStep lib env s)"
  by (simp add: numeral_2_eq_2)

lemma capturedState_fields [simp]:
  "useDshotTelemetry (capturedState buffer old)"
  "dmaMotors (capturedState buffer old) i = capturedMotor buffer old"
  "dshotInvalidPacketCount (capturedState buffer old) = 0"
  "getDshotTelemetry (capturedState buffer old) i = old"
  "hasTelemetry (capturedMotor buffer old)"
  "\<not> useProshot (capturedMotor buffer old)"
  "dmaBuffer (capturedMotor buffer old) = buffer"
  "dshotTelemetryValue (capturedMotor buffer old) = old"
  by (simp_all add: capturedState_def capturedMotor_def getDshotTelemetry_def)

lemma quadState_first_call:
  "rpmFilterUpdate standInLib quadEnv tel quadState
     = updateStep standInLib quadEnv (updateStep standInLib quadEnv
         (fold (smoothErpm standInLib tel) [0..<4] quadState))"
  by (simp add: rpmFilterUpdate_active updateLoop_2)

text \<open>
  C8 (amended). A recompute step refreshes the motor frequency estimate exactly when the
  bank index wraps back to zero, that is, whenever the cursor moves on to the next motor,
  whether or not the motor index wraps back to zero. It refreshes the estimate of the motor
  the cursor moves to, from \<open>erpmToHz * filteredMotorErpm\<close> of that motor, and no other.
\<close>

theorem frequency_refreshed_on_motor_advance:
  "motorFrequency (updateStep lib env s)
     = (if (harmonic s + 1) mod 256 = harmonics (filters s (currentFilter s))
           \<and> (filter_idx s + 1) mod 256 = numberRpmNotchFilters s
        then (motorFrequency s)(motor (updateStep lib env s) :=
               erpmToHz s * filteredMotorErpm s (motor (updateStep lib env s)))
        else motorFrequency s) \<and>
   motor (updateStep lib env s)
     = (if (harmonic s + 1) mod 256 = harmonics (filters s (currentFilter s))
           \<and> (filter_idx s + 1) mod 256 = numberRpmNotchFilters s
        then (if (motor s + 1) mod 256 = getMotorCount env then 0 else (motor s + 1) mod 256)
        else motor s)"
  by (simp add: updateStep_motorFrequency updateStep_cursor)

text \<open>
  The claim as stated fails in the second call after start-up (telemetry 84 stored for every
  motor): the call recomputes the last two cells of motor 0, the cursor moves from motor 0 to
  motor 1, and the estimate of motor 1 is refreshed although the motor index has not wrapped.
\<close>

theorem frequency_refresh_counterexample:
  "motor (rpmFilterUpdate standInLib quadEnv (getDshotTelemetry (capturedState goodCapture 84))
            quadState) = 0 \<and>
   motorFrequency (rpmFilterUpdate standInLib quadEnv
            (getDshotTelemetry (capturedState goodCapture 84)) quadState) 1 = 0 \<and>
   motor (rpmFilterUpdate standInLib quadEnv (getDshotTelemetry (capturedState goodCapture 84))
            (rpmFilterUpdate standInLib quadEnv (getDshotTelemetry (capturedState goodCapture 84))
               quadState)) = 1 \<and>
   motorFrequency (rpmFilterUpdate standInLib quadEnv
            (getDshotTelemetry (capturedState goodCapture 84))
            (rpmFilterUpdate standInLib quadEnv (getDshotTelemetry (capturedState goodCapture 84))
               quadState)) 1 = 15"
proof -
  define tel where "tel = getDshotTelemetry (capturedState goodCapture 84)"
  define s0 where "s0 = fold (smoothErpm standInLib tel) [0..<4] quadState"
  define s1 where "s1 = updateStep standInLib quadEnv s0"
  define s2 where "s2 = updateStep standInLib quadEnv s1"
  define t2 where "t2 = fold (smoothErpm standInLib tel) [0..<4] s2"
  define s3 where "s3 = updateStep standInLib quadEnv t2"
  define s4 where "s4 = updateStep standInLib quadEnv s3"
  have c1: "rpmFilterUpdate standInLib quadEnv tel quadState = s2"
    by (simp add: quadState_first_call s2_def s1_def s0_def)
  have b0: "harmonics (filters s0 0) = 3" "harmonics (filters s0 (Suc 0)) = 1"
    "numberRpmNotchFilters s0 = 2" "filterUpdatesPerIteration s0 = 2"
    "gyroFilter s0 = Some 0" "erpmToHz s0 = 5 / 21"
    by (simp_all add: s0_def)
  have k0: "harmonic s0 = 0" "filter_idx s0 = 0" "currentFilter s0 = 0" "motor s0 = 0"
    "motorFrequency s0 = (\<lambda>_. 0)"
    by (simp_all add: s0_def)
  have b1: "harmonics (filters s1 0) = 3" "harmonics (filters s1 (Suc 0)) = 1"
    "numberRpmNotchFilters s1 = 2" "filterUpdatesPerIteration s1 = 2"
    "gyroFilter s1 = Some 0" "erpmToHz s1 = 5 / 21"
    by (simp_all add: s1_def b0)
  have k1: "harmonic s1 = 1" "filter_idx s1 = 0" "currentFilter s1 = 0" "motor s1 = 0"
    "motorFrequency s1 = (\<lambda>_. 0)"
    by (simp_all add: s1_def updateStep_cursor updateStep_motorFrequency b0 k0)
  have b2: "harmonics (filters s2 0) = 3" "harmonics (filters s2 (Suc 0)) = 1"
    "numberRpmNotchFilters s2 = 2" "filterUpdatesPerIteration s2 = 2"
    "gyroFilter s2 = Some 0" "erpmToHz s2 = 5 / 21"
    by (simp_all add: s2_def b1)
  have k2: "harmonic s2 = 2" "filter_idx s2 = 0" "currentFilter s2 = 0" "motor s2 = 0"
    "motorFrequency s2 = (\<lambda>_. 0)"
    by (simp_all add: s2_def updateStep_cursor updateStep_motorFrequency b1 k1)
  have f2: "rpmFilters s2 (Suc 0) = \<lparr> pt1_state = 42, pt1_k = 1 / 2 \<rparr>"
    using smooth_fold_changes [of standInLib tel 4 quadState "Suc 0"]
    by (simp add: s2_def s1_def s0_def tel_def pt1FilterApply_spec_def Let_def)
  have c2: "rpmFilterUpdate standInLib quadEnv tel s2 = s4"
    by (simp add: rpmFilterUpdate_active updateLoop_2 b2 s4_def s3_def t2_def)
  have bt: "harmonics (filters t2 0) = 3" "harmonics (filters t2 (Suc 0)) = 1"
    "numberRpmNotchFilters t2 = 2" "erpmToHz t2 = 5 / 21"
    by (simp_all add: t2_def b2)
  have kt: "harmonic t2 = 2" "filter_idx t2 = 0" "currentFilter t2 = 0" "motor t2 = 0"
    "motorFrequency t2 = (\<lambda>_. 0)"
    by (simp_all add: t2_def k2)
  have et: "filteredMotorErpm t2 (Suc 0) = 63"
    using smooth_fold_changes [of standInLib tel 4 s2 "Suc 0"]
    by (simp add: t2_def f2 tel_def pt1FilterApply_spec_def Let_def)
  have b3: "harmonics (filters s3 0) = 3" "harmonics (filters s3 (Suc 0)) = 1"
    "numberRpmNotchFilters s3 = 2" "erpmToHz s3 = 5 / 21" "filteredMotorErpm s3 (Suc 0) = 63"
    by (simp_all add: s3_def bt et)
  have k3: "harmonic s3 = 0" "filter_idx s3 = 1" "currentFilter s3 = 1" "motor s3 = 0"
    "motorFrequency s3 = (\<lambda>_. 0)"
    by (simp_all add: s3_def updateStep_cursor updateStep_motorFrequency bt kt)
  have k4: "motor s4 = 1" "motorFrequency s4 1 = 15"
    by (simp_all add: s4_def updateStep_cursor updateStep_motorFrequency b3 k3)
  from c1 c2 k2 k4 show ?thesis by (simp add: tel_def)
qed


theorem frequency_refreshed_on_motor_advance_witness:
  "motorFrequency (updateStep standInLib quadEnv quadState) = motorFrequency quadState \<and>
   motor (updateStep standInLib quadEnv quadState) = 0 \<and>
   motor (updateStep standInLib quadEnv
            (quadState\<lparr>filteredMotorErpm := (\<lambda>_. 63), filter_idx := 1, currentFilter := 1\<rparr>)) = 1 \<and>
   motorFrequency (updateStep standInLib quadEnv
            (quadState\<lparr>filteredMotorErpm := (\<lambda>_. 63), filter_idx := 1, currentFilter := 1\<rparr>))
     = (\<lambda>_. 0)(1 := 15)"
  using frequency_refreshed_on_motor_advance [of standInLib quadEnv quadState]
    frequency_refreshed_on_motor_advance [of standInLib quadEnv
      "quadState\<lparr>filteredMotorErpm := (\<lambda>_. 63), filter_idx := 1, currentFilter := 1\<rparr>"]
  by simp

text \<open>
  C7 (amended). When a ready capture of a motor decodes to the sentinel (and no decoder
  faults), \<^verbatim>\<open>pwmStartDshotMotorUpdate\<close> leaves the telemetry value of that motor as it was
  and adds to the invalid-packet counter the number of such motors. The following
  \<^verbatim>\<open>rpmFilterUpdate\<close> does not hold the smoothed value: it feeds the unchanged telemetry
  value, the last valid one, through the motor's low-pass filter again.
\<close>

theorem invalid_capture_refilters_last_value:
  assumes "useDshotTelemetry ds" and "i < motorCount"
    and "invalidCapture c (dmaMotors ds i)"
    and "\<forall>j<motorCount. hasTelemetry (dmaMotors ds j) \<longrightarrow> decodeTelemetry c (dmaMotors ds j) \<noteq> None"
    and "i < getMotorCount env"
    and "gyroFilter rs \<noteq> None \<or> dtermFilter rs \<noteq> None"
  shows "\<exists>ds'. pwmStartDshotMotorUpdate c motorCount ds = Some ds' \<and>
           getDshotTelemetry ds' i = getDshotTelemetry ds i \<and>
           dshotInvalidPacketCount ds'
             = dshotInvalidPacketCount ds
                 + of_nat (length (filter (\<lambda>j. invalidCapture c (dmaMotors ds j)) [0..<motorCount])) \<and>
           0 < length (filter (\<lambda>j. invalidCapture c (dmaMotors ds j)) [0..<motorCount]) \<and>
           filteredMotorErpm (rpmFilterUpdate lib env (getDshotTelemetry ds') rs) i
             = snd (pt1FilterApply lib (rpmFilters rs i) (real (unat (getDshotTelemetry ds i))))"
proof -
  from pwmStartDshotMotorUpdate_total [OF assms(4)] obtain ds'
    where u: "pwmStartDshotMotorUpdate c motorCount ds = Some ds'" ..
  have v: "getDshotTelemetry ds' i = getDshotTelemetry ds i"
    using pwmStartDshotMotorUpdate_value [OF u, of i] assms(1,2) telemetryAfter_invalid [OF assms(3)]
    by (simp add: getDshotTelemetry_def)
  have n: "dshotInvalidPacketCount ds'
             = dshotInvalidPacketCount ds
                 + of_nat (length (filter (\<lambda>j. invalidCapture c (dmaMotors ds j)) [0..<motorCount]))"
    by (rule pwmStartDshotMotorUpdate_count [OF u assms(1)])
  have "i \<in> set (filter (\<lambda>j. invalidCapture c (dmaMotors ds j)) [0..<motorCount])"
    using assms(2,3) by simp
  then have p: "0 < length (filter (\<lambda>j. invalidCapture c (dmaMotors ds j)) [0..<motorCount])"
    by (rule length_pos_if_in_set)
  have f: "filteredMotorErpm (rpmFilterUpdate lib env (getDshotTelemetry ds') rs) i
             = snd (pt1FilterApply lib (rpmFilters rs i) (real (unat (getDshotTelemetry ds i))))"
    using rpmFilterUpdate_filteredMotorErpm [OF assms(6), of lib env "getDshotTelemetry ds'" i]
      assms(5) v by simp
  from u v n p f show ?thesis by blast
qed

lemma badCapture_invalid: "decodeDshotPacket betaflightConsts badCapture = Some 0xffff"
  by code_simp

lemma badCapture_motor: "invalidCapture betaflightConsts (capturedMotor badCapture old)"
  by (simp add: invalidCapture_def decodeTelemetry_def badCapture_invalid)

theorem invalid_capture_refilters_last_value_witness:
  "\<exists>ds'. pwmStartDshotMotorUpdate betaflightConsts 4 (capturedState badCapture 100) = Some ds' \<and>
      getDshotTelemetry ds' 0 = 100 \<and> dshotInvalidPacketCount ds' = 4 \<and>
      filteredMotorErpm (rpmFilterUpdate standInLib quadEnv (getDshotTelemetry ds') quadState) 0 = 50"
proof -
  have a: "useDshotTelemetry (capturedState badCapture 100)" "(0::nat) < 4"
    "invalidCapture betaflightConsts (dmaMotors (capturedState badCapture 100) 0)"
    "\<forall>j<4. hasTelemetry (dmaMotors (capturedState badCapture 100) j)
        \<longrightarrow> decodeTelemetry betaflightConsts (dmaMotors (capturedState badCapture 100) j) \<noteq> None"
    "0 < getMotorCount quadEnv" "gyroFilter quadState \<noteq> None \<or> dtermFilter quadState \<noteq> None"
    by (simp_all add: badCapture_motor decodeTelemetry_def badCapture_invalid)
  from invalid_capture_refilters_last_value [OF a, of standInLib] show ?thesis
    by (simp add: badCapture_motor pt1FilterApply_spec_def Let_def)
qed

text \<open>
  The claim as stated fails for the smoothed estimate. After one call with the telemetry
  value 100 the smoothed estimate of motor 0 is 50; the next capture decodes to the sentinel,
  the stored value stays 100, and the next call moves the smoothed estimate to 75.
\<close>

theorem invalid_capture_counterexample:
  "filteredMotorErpm
     (rpmFilterUpdate standInLib quadEnv (getDshotTelemetry (capturedState badCapture 100)) quadState)
     0 = 50 \<and>
   invalidCapture betaflightConsts (dmaMotors (capturedState badCapture 100) 0) \<and>
   pwmStartDshotMotorUpdate betaflightConsts 4 (capturedState badCapture 100) \<noteq> None \<and>
   getDshotTelemetry (the (pwmStartDshotMotorUpdate betaflightConsts 4 (capturedState badCapture 100))) 0
     = 100 \<and>
   filteredMotorErpm
     (rpmFilterUpdate standInLib quadEnv
        (getDshotTelemetry (the (pwmStartDshotMotorUpdate betaflightConsts 4 (capturedState badCapture 100))))
        (rpmFilterUpdate standInLib quadEnv (getDshotTelemetry (capturedState badCapture 100)) quadState))
     0 = 75"
proof -
  define rs1 where
    "rs1 = rpmFilterUpdate standInLib quadEnv (getDshotTelemetry (capturedState badCapture 100)) quadState"
  have q: "gyroFilter quadState \<noteq> None \<or> dtermFilter quadState \<noteq> None" by simp
  have e1: "filteredMotorErpm rs1 0 = 50"
    unfolding rs1_def
    using rpmFilterUpdate_filteredMotorErpm [OF q, of standInLib quadEnv
        "getDshotTelemetry (capturedState badCapture 100)" 0]
    by (simp add: pt1FilterApply_spec_def Let_def)
  have r1: "rpmFilters rs1 0 = \<lparr> pt1_state = 50, pt1_k = 1 / 2 \<rparr>"
    using smooth_fold_changes [of standInLib "getDshotTelemetry (capturedState badCapture 100)" 4 quadState 0]
    by (simp add: rs1_def rpmFilterUpdate_active pt1FilterApply_spec_def Let_def)
  have p1: "gyroFilter rs1 \<noteq> None \<or> dtermFilter rs1 \<noteq> None"
    by (simp add: rs1_def rpmFilterUpdate_active)
  have a: "\<forall>j<4. hasTelemetry (dmaMotors (capturedState badCapture 100) j)
        \<longrightarrow> decodeTelemetry betaflightConsts (dmaMotors (capturedState badCapture 100) j) \<noteq> None"
    by (simp add: decodeTelemetry_def badCapture_invalid)
  from pwmStartDshotMotorUpdate_total [OF a] obtain ds'
    where u: "pwmStartDshotMotorUpdate betaflightConsts 4 (capturedState badCapture 100) = Some ds'" ..
  have v: "getDshotTelemetry ds' 0 = 100"
    using pwmStartDshotMotorUpdate_value [OF u, of 0] telemetryAfter_invalid [OF badCapture_motor, of 100]
    by simp
  have e2: "filteredMotorErpm (rpmFilterUpdate standInLib quadEnv (getDshotTelemetry ds') rs1) 0 = 75"
    using rpmFilterUpdate_filteredMotorErpm [OF p1, of standInLib quadEnv "getDshotTelemetry ds'" 0]
    by (simp add: v r1 pt1FilterApply_spec_def Let_def)
  from e1 e2 u v show ?thesis by (simp add: rs1_def badCapture_motor)
qed

end
